theory Spec2Isabelle
  imports Main "HOL-Library.Word"
begin

unbundle bit_operations_syntax

section \<open>Wire format (cmsis\_dap\_tcp.h)\<close>

type_synonym u8 = "8 word"
type_synonym u16 = "16 word"
type_synonym u32 = "32 word"

text \<open>
  \<^verbatim>\<open>struct cmsis_dap_tcp_packet_hdr { uint32_t signature; uint16_t length;
  uint8_t packet_type; uint8_t reserved; };\<close>
  The field \<^verbatim>\<open>length\<close> is called \<open>pkt_length\<close> here.
\<close>

record cmsis_dap_tcp_packet_hdr =
  signature :: u32
  pkt_length :: u16
  packet_type :: u8
  reserved :: u8

definition DAP_PKT_HDR_SIGNATURE :: u32 where
  "DAP_PKT_HDR_SIGNATURE = 0x00504144"

definition DAP_PKT_TYPE_REQUEST :: u8 where
  "DAP_PKT_TYPE_REQUEST = 0x01"

definition DAP_PKT_TYPE_RESPONSE :: u8 where
  "DAP_PKT_TYPE_RESPONSE = 0x02"

definition CMSIS_DAP_PACKET_SIZE :: nat where
  "CMSIS_DAP_PACKET_SIZE = 1024"

text \<open>\<^verbatim>\<open>sizeof(struct cmsis_dap_tcp_packet_hdr)\<close>: 4 + 2 + 1 + 1 bytes, no padding.\<close>

definition sizeof_header :: nat where
  "sizeof_header = 8"

text \<open>
  The header as it lies in memory and on the wire. The macros \<^verbatim>\<open>h_u32_to_le\<close>,
  \<^verbatim>\<open>h_u16_to_le\<close>, \<^verbatim>\<open>le_to_h_u32\<close> and \<^verbatim>\<open>le_to_h_u16\<close> make the
  multi-byte fields little endian on every host.
\<close>

definition h_u16_to_le :: "u16 \<Rightarrow> u8 list" where
  "h_u16_to_le w = [ucast w, ucast (drop_bit 8 w)]"

definition h_u32_to_le :: "u32 \<Rightarrow> u8 list" where
  "h_u32_to_le w = [ucast w, ucast (drop_bit 8 w), ucast (drop_bit 16 w), ucast (drop_bit 24 w)]"

definition le_to_h_u16 :: "u8 list \<Rightarrow> u16" where
  "le_to_h_u16 bs = ucast (bs ! 0) OR push_bit 8 (ucast (bs ! 1))"

definition le_to_h_u32 :: "u8 list \<Rightarrow> u32" where
  "le_to_h_u32 bs = ucast (bs ! 0) OR push_bit 8 (ucast (bs ! 1))
                    OR push_bit 16 (ucast (bs ! 2)) OR push_bit 24 (ucast (bs ! 3))"

definition hdr_bytes :: "cmsis_dap_tcp_packet_hdr \<Rightarrow> u8 list" where
  "hdr_bytes h = h_u32_to_le (signature h) @ h_u16_to_le (pkt_length h)
                 @ [packet_type h, reserved h]"

text \<open>Reading a header out of (at least) eight bytes of memory.\<close>

definition hdr_of_bytes :: "u8 list \<Rightarrow> cmsis_dap_tcp_packet_hdr" where
  "hdr_of_bytes bs = \<lparr> signature = le_to_h_u32 (take 4 bs),
                       pkt_length = le_to_h_u16 (take 2 (drop 4 bs)),
                       packet_type = bs ! 6,
                       reserved = bs ! 7 \<rparr>"

section \<open>The transport: sockets as the server sees them\<close>

text \<open>
  The system calls are not code of the repository. They are modelled on an in-memory
  socket: the bytes received and not yet read (\<open>rxq\<close>), whether the peer has closed its
  write side (\<open>fin\<close>), a pending socket error that the next call reports and clears
  (\<open>so_error\<close>, an errno value), the free space of the send buffer (\<open>room\<close>) and the
  bytes accepted for transmission (\<open>txq\<close>). All sockets are non-blocking.
\<close>

record sock =
  rxq :: "u8 list"
  fin :: bool
  so_error :: "int option"
  room :: nat
  txq :: "u8 list"

text \<open>What the outside can observe, in order.\<close>

datatype event =
    EvClose int
  | EvWrite int "u8 list" int
  | EvCommand "u8 list"

text \<open>
  The static variables of the server (\<open>client_sockfd\<close>, \<open>server_sockfd\<close>, \<open>request\<close>,
  \<open>response\<close>), \<open>errno\<close>, and the state of the operating system: the open sockets by
  descriptor, the queue of the listening socket (each entry a failing accept with its
  errno, or a connection with the descriptor accept will give it), and the number of
  signals that will interrupt coming calls. The scratch array \<open>packet_buf\<close> is
  rewritten on every use before it is read and is kept local to \<open>send_dap_response\<close>.
\<close>

record tcp_state =
  client_sockfd :: int
  server_sockfd :: int
  request :: "u8 list"
  response :: "u8 list"
  errno :: int
  socks :: "int \<rightharpoonup> sock"
  backlog :: "(int + int \<times> sock) list"
  signals :: nat
  trace :: "event list"

definition EINTR :: int where "EINTR = 4"
definition EBADF :: int where "EBADF = 9"
definition EAGAIN :: int where "EAGAIN = 11"
definition EWOULDBLOCK :: int where "EWOULDBLOCK = 11"
definition ETIMEDOUT :: int where "ETIMEDOUT = 116"
definition ENOTCONN :: int where "ENOTCONN = 128"

text \<open>\<^verbatim>\<open>ioctl(fd, FIONREAD, &nbytes)\<close>: the return value and \<open>nbytes\<close>.\<close>

definition sys_ioctl_FIONREAD :: "int \<Rightarrow> tcp_state \<Rightarrow> int \<times> int" where
  "sys_ioctl_FIONREAD fd s =
     (case socks s fd of
        None \<Rightarrow> (-1, 0)
      | Some k \<Rightarrow> (0, int (length (rxq k))))"

text \<open>
  \<^verbatim>\<open>recv(fd, data, n, flags)\<close> and \<^verbatim>\<open>read(fd, data, n)\<close> on a non-blocking socket:
  the return value, the bytes stored at \<open>data\<close>, and the new state. With \<open>peek\<close> the bytes
  stay queued. Queued bytes are delivered first; with nothing queued a pending signal
  interrupts the call, a pending error is reported, a closed stream reads as 0 bytes,
  and otherwise the call fails with EAGAIN. A request for 0 bytes returns 0.
\<close>

definition sys_recv :: "int \<Rightarrow> nat \<Rightarrow> bool \<Rightarrow> tcp_state \<Rightarrow> int \<times> u8 list \<times> tcp_state" where
  "sys_recv fd n peek s =
     (case socks s fd of
        None \<Rightarrow> (-1, [], s\<lparr>errno := EBADF\<rparr>)
      | Some k \<Rightarrow>
          if n = 0 then (0, [], s)
          else if rxq k \<noteq> [] then
            (int (min n (length (rxq k))), take n (rxq k),
             if peek then s else s\<lparr>socks := (socks s)(fd \<mapsto> k\<lparr>rxq := drop n (rxq k)\<rparr>)\<rparr>)
          else if 0 < signals s then (-1, [], s\<lparr>errno := EINTR, signals := signals s - 1\<rparr>)
          else (case so_error k of
                  Some e \<Rightarrow> (-1, [], s\<lparr>errno := e, socks := (socks s)(fd \<mapsto> k\<lparr>so_error := None\<rparr>)\<rparr>)
                | None \<Rightarrow> if fin k then (0, [], s) else (-1, [], s\<lparr>errno := EAGAIN\<rparr>)))"

text \<open>
  \<^verbatim>\<open>write(fd, data, len)\<close> on a non-blocking socket, \<open>data\<close> being the \<open>len\<close> bytes at
  the pointer: as many bytes as the send buffer has room for are accepted, none gives
  EAGAIN, and a pending error fails the call. Every call is recorded in the trace with
  the buffer it was given and its return value.
\<close>

definition sys_write :: "int \<Rightarrow> u8 list \<Rightarrow> tcp_state \<Rightarrow> int \<times> tcp_state" where
  "sys_write fd data s =
     (case socks s fd of
        None \<Rightarrow> (-1, s\<lparr>errno := EBADF, trace := trace s @ [EvWrite fd data (-1)]\<rparr>)
      | Some k \<Rightarrow>
          (case so_error k of
             Some e \<Rightarrow> (-1, s\<lparr>errno := e, socks := (socks s)(fd \<mapsto> k\<lparr>so_error := None\<rparr>),
                              trace := trace s @ [EvWrite fd data (-1)]\<rparr>)
           | None \<Rightarrow>
               if data \<noteq> [] \<and> room k = 0
               then (-1, s\<lparr>errno := EAGAIN, trace := trace s @ [EvWrite fd data (-1)]\<rparr>)
               else let m = min (length data) (room k) in
                 (int m, s\<lparr>socks := (socks s)(fd \<mapsto> k\<lparr>txq := txq k @ take m data,
                                                          room := room k - m\<rparr>),
                           trace := trace s @ [EvWrite fd data (int m)]\<rparr>)))"

text \<open>\<^verbatim>\<open>close(fd)\<close>.\<close>

definition sys_close :: "int \<Rightarrow> tcp_state \<Rightarrow> tcp_state" where
  "sys_close fd s = s\<lparr>socks := (socks s)(fd := None), trace := trace s @ [EvClose fd]\<rparr>"

text \<open>\<^verbatim>\<open>accept(server_sockfd, ...)\<close> on the non-blocking listening socket.\<close>

definition sys_accept :: "tcp_state \<Rightarrow> int \<times> tcp_state" where
  "sys_accept s =
     (case backlog s of
        [] \<Rightarrow> (-1, s\<lparr>errno := EAGAIN\<rparr>)
      | Inl e # rest \<Rightarrow> (-1, s\<lparr>errno := e, backlog := rest\<rparr>)
      | Inr (fd, k) # rest \<Rightarrow> (fd, s\<lparr>backlog := rest, socks := (socks s)(fd \<mapsto> k)\<rparr>))"

text \<open>\<^verbatim>\<open>fcntl(fd, F_SETFL, O_NONBLOCK)\<close>: fails on a descriptor that is not open.\<close>

definition sys_fcntl_NONBLOCK :: "int \<Rightarrow> tcp_state \<Rightarrow> int" where
  "sys_fcntl_NONBLOCK fd s = (case socks s fd of None \<Rightarrow> -1 | Some k \<Rightarrow> 0)"

section \<open>Socket helpers (cmsis\_dap\_tcp.c)\<close>

definition socket_available :: "tcp_state \<Rightarrow> int" where
  "socket_available s =
     (if client_sockfd s = 0 then 0
      else let (ret, nbytes) = sys_ioctl_FIONREAD (client_sockfd s) s in
        if ret < 0 then 0 else nbytes)"

definition socket_read :: "nat \<Rightarrow> tcp_state \<Rightarrow> int \<times> u8 list \<times> tcp_state" where
  "socket_read len s =
     (if client_sockfd s = 0 then (-1, [], s)
      else sys_recv (client_sockfd s) len False s)"

definition socket_peek :: "nat \<Rightarrow> tcp_state \<Rightarrow> int \<times> u8 list \<times> tcp_state" where
  "socket_peek len s =
     (if client_sockfd s = 0 then (-1, [], s)
      else sys_recv (client_sockfd s) len True s)"

definition socket_write :: "u8 list \<Rightarrow> tcp_state \<Rightarrow> int \<times> tcp_state" where
  "socket_write data s =
     (if client_sockfd s = 0 then (-1, s)
      else sys_write (client_sockfd s) data s)"

section \<open>Frame codec\<close>

text \<open>
  \<open>send_dap_response buf len\<close>. The comparison of \<open>len\<close> with
  \<^verbatim>\<open>sizeof(packet_buf) - sizeof(*header)\<close> is unsigned, so a negative \<open>len\<close> is too
  large as well. \<open>memcpy\<close> copies the first \<open>len\<close> bytes of \<open>buf\<close> behind the header.
\<close>

definition send_dap_response :: "u8 list \<Rightarrow> int \<Rightarrow> tcp_state \<Rightarrow> int \<times> tcp_state" where
  "send_dap_response buf len s =
     (if len < 0 \<or> int (CMSIS_DAP_PACKET_SIZE + sizeof_header) - int sizeof_header < len
      then (-1, s)
      else
        let header = \<lparr> signature = DAP_PKT_HDR_SIGNATURE,
                       pkt_length = word_of_int len,
                       packet_type = DAP_PKT_TYPE_RESPONSE,
                       reserved = 0 \<rparr>;
            packet_buf = hdr_bytes header @ take (nat len) buf;
            len' = len + int sizeof_header;
            (ret, s') = socket_write packet_buf s
        in if ret < 0 then (ret, s')
           else (if ret = len' then 0 else -1, s'))"

text \<open>
  \<open>recv_dap_request buf len\<close>: the return value, the new contents of \<open>buf\<close> and the new
  state. \<open>socket_available\<close> is never negative, so its comparisons with sizes are those
  of the numbers.
\<close>

definition recv_dap_request :: "u8 list \<Rightarrow> int \<Rightarrow> tcp_state \<Rightarrow> int \<times> u8 list \<times> tcp_state" where
  "recv_dap_request buf len s =
     (if socket_available s < int sizeof_header then (0, buf, s)
      else
        let (ret, hb, s1) = socket_peek sizeof_header s in
        if ret < 0 then (ret, buf, s1)
        else if ret < int sizeof_header then (-1, buf, s1)
        else
          let header = hdr_of_bytes hb in
          if signature header \<noteq> DAP_PKT_HDR_SIGNATURE then
            (let (r, d, s2) = socket_read sizeof_header s1 in (-1, buf, s2))
          else if packet_type header \<noteq> DAP_PKT_TYPE_REQUEST then
            (let (r, d, s2) = socket_read sizeof_header s1 in (-1, buf, s2))
          else if socket_available s1 < int sizeof_header + uint (pkt_length header)
          then (0, buf, s1)
          else if len < uint (pkt_length header) then (-1, buf, s1)
          else
            let (ret, hb', s2) = socket_read sizeof_header s1 in
            if ret < 0 then (ret, buf, s2)
            else if ret < int sizeof_header then (-1, buf, s2)
            else
              let header' = hdr_of_bytes hb';
                  (ret, d, s3) = socket_read (unat (pkt_length header')) s2;
                  buf' = d @ drop (length d) buf
              in if ret < 0 then (ret, buf', s3)
                 else if ret < uint (pkt_length header') then (-1, buf', s3)
                 else (ret, buf', s3))"

section \<open>Connection manager\<close>

text \<open>
  How many more times the peek of \<open>socket_disconnected\<close> can be interrupted: each
  pending signal once, and a pending socket error once, since reporting clears it.
\<close>

definition probe_budget :: "tcp_state \<Rightarrow> nat" where
  "probe_budget s = signals s +
     (case socks s (client_sockfd s) of
        None \<Rightarrow> 0
      | Some k \<Rightarrow> (case so_error k of None \<Rightarrow> 0 | Some e \<Rightarrow> 1))"

lemma sys_recv_EINTR:
  assumes "sys_recv (client_sockfd s) n True s = (r, x, s')" "r < 0" "errno s' = EINTR"
  shows "probe_budget s' < probe_budget s"
  using assms
  by (auto simp add: sys_recv_def probe_budget_def EINTR_def EBADF_def EAGAIN_def
      split: option.splits if_splits)

text \<open>
  \<open>socket_disconnected\<close>: the loop around \<^verbatim>\<open>recv(client_sockfd, &x, 1,
  MSG_DONTWAIT|MSG_PEEK)\<close>. EINTR repeats the call; EAGAIN, ETIMEDOUT and ENOTCONN leave
  the switch and the loop with the negative \<open>r\<close>; any other errno returns \<open>-errno\<close>.
\<close>

function socket_disconnected :: "tcp_state \<Rightarrow> int \<times> tcp_state" where
  "socket_disconnected s =
     (case sys_recv (client_sockfd s) 1 True s of (r, x, s') \<Rightarrow>
        if r < 0 then
          (if errno s' = EINTR then socket_disconnected s'
           else if errno s' = EAGAIN then (if r = 0 then 1 else 0, s')
           else if errno s' = ETIMEDOUT then (if r = 0 then 1 else 0, s')
           else if errno s' = ENOTCONN then (if r = 0 then 1 else 0, s')
           else (- errno s', s'))
        else (if r = 0 then 1 else 0, s'))"
  by pat_completeness auto
termination
proof (relation "measure probe_budget")
  fix s r y x s'
  assume "(r, y) = sys_recv (client_sockfd s) 1 True s" and "(x, s') = y"
    and "r < 0" and "errno s' = EINTR"
  then have "probe_budget s' < probe_budget s"
    using sys_recv_EINTR [of s 1 r x s'] by simp
  then show "(s', s) \<in> measure probe_budget" by simp
qed simp

declare socket_disconnected.simps [simp del]

text \<open>
  \<open>handle_server\<close>. The \<open>setsockopt\<close> calls that arm the keepalive probes have no
  effect on this model of a socket and their results are ignored by the code.
\<close>

definition handle_server :: "tcp_state \<Rightarrow> int \<times> tcp_state" where
  "handle_server s =
     (let (ret, s1) = sys_accept s in
      if ret < 0 then
        (if errno s1 = EWOULDBLOCK \<or> errno s1 = EAGAIN then (0, s1) else (ret, s1))
      else if client_sockfd s1 \<noteq> 0 then (0, sys_close ret s1)
      else
        let s2 = s1\<lparr>client_sockfd := ret\<rparr>;
            ret' = sys_fcntl_NONBLOCK (client_sockfd s2) s2
        in if ret' < 0 then (-1, s2) else (0, s2))"

definition handle_client :: "tcp_state \<Rightarrow> int \<times> tcp_state" where
  "handle_client s =
     (if client_sockfd s = 0 then (0, s)
      else
        let (d, s1) = socket_disconnected s in
        if d \<noteq> 0 then (0, (sys_close (client_sockfd s1) s1)\<lparr>client_sockfd := 0\<rparr>)
        else (0, s1))"

section \<open>Request pump\<close>

text \<open>The number of unread bytes buffered on the client connection.\<close>

definition pending :: "tcp_state \<Rightarrow> nat" where
  "pending s = (case socks s (client_sockfd s) of None \<Rightarrow> 0 | Some k \<Rightarrow> length (rxq k))"

lemma socket_peek_keeps:
  "socket_peek n s = (r, d, s') \<Longrightarrow>
     client_sockfd s' = client_sockfd s \<and> pending s' = pending s"
  by (auto simp add: socket_peek_def sys_recv_def pending_def split: option.splits if_splits)

lemma socket_read_consumes:
  "socket_read n s = (r, d, s') \<Longrightarrow>
     client_sockfd s' = client_sockfd s \<and>
     (if 0 < r then pending s' + nat r = pending s else pending s' = pending s)"
  by (auto simp add: socket_read_def sys_recv_def pending_def split: option.splits if_splits)

lemma socket_write_keeps:
  "socket_write data s = (r, s') \<Longrightarrow>
     client_sockfd s' = client_sockfd s \<and> pending s' = pending s"
  by (auto simp add: socket_write_def sys_write_def pending_def Let_def
      split: option.splits if_splits)

lemma send_dap_response_keeps:
  "send_dap_response buf len s = (r, s') \<Longrightarrow>
     client_sockfd s' = client_sockfd s \<and> pending s' = pending s"
  by (auto simp add: send_dap_response_def Let_def split: if_splits prod.splits
      dest: socket_write_keeps)

lemma recv_dap_request_consumes:
  assumes "recv_dap_request buf len s = (r, buf', s')"
  shows "client_sockfd s' = client_sockfd s \<and> pending s' \<le> pending s \<and>
         (0 < r \<longrightarrow> pending s' < pending s)"
  using assms
  apply (simp add: recv_dap_request_def Let_def sizeof_header_def split: if_splits prod.splits)
                apply (auto dest!: socket_peek_keeps socket_read_consumes split: if_splits)
  done

text \<open>
  \<open>process_dap_requests\<close>. \<open>DAP_ProcessCommand\<close> is the external command processor:
  the parameter \<open>dap\<close> takes the processor's own state, the \<open>request\<close> array and the
  \<open>response\<close> array and gives the 32-bit return value, the \<open>response\<close> array as it
  left it and its new state. Each iteration that goes on has taken a frame off the
  connection, and nothing arrives during the call.
\<close>

function process_dap_requests ::
  "('d \<Rightarrow> u8 list \<Rightarrow> u8 list \<Rightarrow> u32 \<times> u8 list \<times> 'd) \<Rightarrow> 'd \<Rightarrow> tcp_state \<Rightarrow> int \<times> 'd \<times> tcp_state"
where
  "process_dap_requests dap d s =
     (case recv_dap_request (request s) (int CMSIS_DAP_PACKET_SIZE) s of (ret, buf, s1) \<Rightarrow>
        let s2 = s1\<lparr>request := buf\<rparr> in
        if ret \<le> 0 then (ret, d, s2)
        else
          (case dap d (request s2) (response s2) of (r, resp, d') \<Rightarrow>
             let s3 = s2\<lparr>response := resp, trace := trace s2 @ [EvCommand (request s2)]\<rparr>;
                 response_len = uint (r AND 0xFFFF)
             in (case send_dap_response (response s3) response_len s3 of (ret', s4) \<Rightarrow>
                   if ret' < 0 then (ret', d', s4)
                   else process_dap_requests dap d' s4)))"
  by pat_completeness auto
termination
proof (relation "measure (\<lambda>(dap, d, s). pending s)")
  fix dap :: "'d \<Rightarrow> u8 list \<Rightarrow> u8 list \<Rightarrow> u32 \<times> u8 list \<times> 'd"
  fix d :: 'd and s ret y buf s1 s2 r z resp d' s3 response_len ret' s4
  assume rcv: "(ret, y) = recv_dap_request (request s) (int CMSIS_DAP_PACKET_SIZE) s"
    and y: "(buf, s1) = y"
    and s2: "s2 = s1\<lparr>request := buf\<rparr>"
    and pos: "\<not> ret \<le> 0"
    and s3: "s3 = s2\<lparr>response := resp, trace := trace s2 @ [EvCommand (request s2)]\<rparr>"
    and snd: "(ret', s4) = send_dap_response (response s3) response_len s3"
  from rcv y have "recv_dap_request (request s) (int CMSIS_DAP_PACKET_SIZE) s = (ret, buf, s1)"
    by simp
  with pos have "pending s1 < pending s"
    using recv_dap_request_consumes by fastforce
  moreover have "pending s3 = pending s1"
    by (simp add: s2 s3 pending_def)
  moreover have "pending s4 = pending s3"
    using send_dap_response_keeps [of "response s3" response_len s3 ret' s4] snd by simp
  ultimately show "((dap, d', s4), (dap, d, s)) \<in> measure (\<lambda>(dap, d, s). pending s)"
    by simp
qed simp

declare process_dap_requests.simps [simp del]

text \<open>\<open>cmsis_dap_tcp_process\<close>: one tick. The results of the two handlers are dropped.\<close>

definition cmsis_dap_tcp_process ::
  "('d \<Rightarrow> u8 list \<Rightarrow> u8 list \<Rightarrow> u32 \<times> u8 list \<times> 'd) \<Rightarrow> 'd \<Rightarrow> tcp_state \<Rightarrow> int \<times> 'd \<times> tcp_state"
where
  "cmsis_dap_tcp_process dap d s =
     (let (r1, s1) = handle_server s;
          (r2, s2) = handle_client s1
      in if client_sockfd s2 \<noteq> 0 then process_dap_requests dap d s2
         else (0, d, s2))"

section \<open>Frames, chunks and example states\<close>

text \<open>
  A frame as the wire format lays it out: the eight header bytes, with the payload's
  length in the length field, and then the payload.
\<close>

definition dap_frame :: "u8 \<Rightarrow> u8 \<Rightarrow> u8 list \<Rightarrow> u8 list" where
  "dap_frame ty rsv p =
     hdr_bytes \<lparr> signature = DAP_PKT_HDR_SIGNATURE, pkt_length = of_nat (length p),
                 packet_type = ty, reserved = rsv \<rparr> @ p"

text \<open>The client connection's buffered stream replaced by \<open>q\<close>.\<close>

definition with_rxq :: "u8 list \<Rightarrow> tcp_state \<Rightarrow> tcp_state" where
  "with_rxq q s =
     (case socks s (client_sockfd s) of
        None \<Rightarrow> s
      | Some k \<Rightarrow> s\<lparr>socks := (socks s)(client_sockfd s \<mapsto> k\<lparr>rxq := q\<rparr>)\<rparr>)"

text \<open>The transport delivers the chunk \<open>c\<close>: it is queued behind what is buffered.\<close>

definition deliver :: "u8 list \<Rightarrow> tcp_state \<Rightarrow> tcp_state" where
  "deliver c s =
     (case socks s (client_sockfd s) of
        None \<Rightarrow> s
      | Some k \<Rightarrow> s\<lparr>socks := (socks s)(client_sockfd s \<mapsto> k\<lparr>rxq := rxq k @ c\<rparr>)\<rparr>)"

text \<open>
  A stream arriving in chunks, \<open>recv_dap_request\<close> being called after each arrival: the
  outcomes in order (the return value and the bytes it stands for), the buffer and the
  state at the end.
\<close>

fun feed :: "u8 list list \<Rightarrow> u8 list \<Rightarrow> int \<Rightarrow> tcp_state \<Rightarrow> (int \<times> u8 list) list \<times> u8 list \<times> tcp_state" where
  "feed [] buf len s = ([], buf, s)"
| "feed (c # cs) buf len s =
     (case recv_dap_request buf len (deliver c s) of (r, buf', s') \<Rightarrow>
        (case feed cs buf' len s' of (rs, b, t) \<Rightarrow> ((r, take (nat r) buf') # rs, b, t)))"

text \<open>The bytes the transport has accepted on the client connection.\<close>

definition sent :: "tcp_state \<Rightarrow> u8 list" where
  "sent s = (case socks s (client_sockfd s) of None \<Rightarrow> [] | Some k \<Rightarrow> txq k)"

text \<open>
  A state for examples: one client connected on descriptor \<open>fd\<close> with \<open>q\<close> buffered,
  4096 bytes of room in the send buffer, and zeroed arrays.
\<close>

definition connected :: "int \<Rightarrow> u8 list \<Rightarrow> tcp_state" where
  "connected fd q =
     \<lparr> client_sockfd = fd, server_sockfd = 2,
       request = replicate 1024 0, response = replicate 1024 0, errno = 0,
       socks = [fd \<mapsto> \<lparr> rxq = q, fin = False, so_error = None, room = 4096, txq = [] \<rparr>],
       backlog = [], signals = 0, trace = [] \<rparr>"

text \<open>The same with nothing buffered and the peer's write side closed.\<close>

definition peer_closed :: "int \<Rightarrow> tcp_state" where
  "peer_closed fd =
     (connected fd [])\<lparr>socks := [fd \<mapsto> \<lparr> rxq = [], fin = True, so_error = None,
                                         room = 4096, txq = [] \<rparr>]\<rparr>"

text \<open>A client connected on descriptor 3 and a second connection waiting to be accepted.\<close>

definition second_pending :: tcp_state where
  "second_pending =
     (connected 3 [])\<lparr>backlog := [Inr (4, \<lparr> rxq = [], fin = False, so_error = None,
                                              room = 4096, txq = [] \<rparr>)]\<rparr>"

text \<open>A connected client with nothing buffered and only \<open>n\<close> bytes of room in the send buffer.\<close>

definition short_of_room :: "int \<Rightarrow> nat \<Rightarrow> tcp_state" where
  "short_of_room fd n =
     (connected fd [])\<lparr>socks := [fd \<mapsto> \<lparr> rxq = [], fin = False, so_error = None,
                                         room = n, txq = [] \<rparr>]\<rparr>"

text \<open>
  A client connected on descriptor 3 with eight stray bytes buffered, and a second
  connection waiting to be accepted.
\<close>

definition stray_pending :: tcp_state where
  "stray_pending =
     (connected 3 [1, 2, 3, 4, 5, 6, 7, 8])\<lparr>backlog :=
        [Inr (4, \<lparr> rxq = [], fin = False, so_error = None, room = 4096, txq = [] \<rparr>)]\<rparr>"

section \<open>The reassembler, read off the stream\<close>

text \<open>
  What \<open>recv_dap_request\<close> does, read off the bytes \<open>q\<close> buffered on the client
  connection: \<open>recv_dap_request_stream\<close> below proves the two equal.
\<close>

definition stream_step :: "u8 list \<Rightarrow> int \<Rightarrow> tcp_state \<Rightarrow> sock \<Rightarrow> int \<times> u8 list \<times> tcp_state" where
  "stream_step buf len s k =
     (let q = rxq k; h = hdr_of_bytes (take 8 q); l = unat (pkt_length h) in
      if length q < 8 then (0, buf, s)
      else if signature h \<noteq> DAP_PKT_HDR_SIGNATURE \<or> packet_type h \<noteq> DAP_PKT_TYPE_REQUEST
      then (-1, buf, s\<lparr>socks := (socks s)(client_sockfd s \<mapsto> k\<lparr>rxq := drop 8 q\<rparr>)\<rparr>)
      else if length q < 8 + l then (0, buf, s)
      else if len < uint (pkt_length h) then (-1, buf, s)
      else (uint (pkt_length h), take l (drop 8 q) @ drop l buf,
            s\<lparr>socks := (socks s)(client_sockfd s \<mapsto> k\<lparr>rxq := drop (8 + l) q\<rparr>)\<rparr>))"

section \<open>One client at a time\<close>

text \<open>
  The connections that are open: every open socket but the listening one. \<open>one_client\<close>
  says that the only connection there can be is the one \<open>client_sockfd\<close> names, and
  that no connection has the descriptor 0, which \<open>client_sockfd\<close> uses for "no client".
  \<open>fresh_accept\<close> is what the operating system guarantees of the next \<open>accept\<close>: a new
  descriptor is positive and is not one that is open. \<open>same_sockets\<close> relates two states
  with the same descriptors open and the same \<open>client_sockfd\<close> and \<open>server_sockfd\<close>.
\<close>

definition connections :: "tcp_state \<Rightarrow> int set" where
  "connections s = dom (socks s) - {server_sockfd s}"

definition one_client :: "tcp_state \<Rightarrow> bool" where
  "one_client s \<longleftrightarrow> connections s \<subseteq> {client_sockfd s} \<and> 0 \<notin> connections s"

definition fresh_accept :: "tcp_state \<Rightarrow> bool" where
  "fresh_accept s \<longleftrightarrow>
     (case backlog s of
        Inr (fd, k) # rest \<Rightarrow> 0 < fd \<and> fd \<notin> dom (socks s) \<and> fd \<noteq> server_sockfd s
      | _ \<Rightarrow> True)"

definition same_sockets :: "tcp_state \<Rightarrow> tcp_state \<Rightarrow> bool" where
  "same_sockets s s' \<longleftrightarrow>
     client_sockfd s' = client_sockfd s \<and> server_sockfd s' = server_sockfd s \<and>
     dom (socks s') = dom (socks s)"

section \<open>Pipelined requests\<close>

text \<open>
  Modelled from the spec: the command processor \<open>DAP_ProcessCommand\<close>, whose source is
  not among the files, "is assumed to always terminate and always produce a response
  length within the maximum payload bound". The response length is the low 16 bits of
  its return value; it also lies within the \<open>response\<close> array the processor leaves.
\<close>

definition dap_ok :: "('d \<Rightarrow> u8 list \<Rightarrow> u8 list \<Rightarrow> u32 \<times> u8 list \<times> 'd) \<Rightarrow> bool" where
  "dap_ok dap \<longleftrightarrow>
     (\<forall>d rq rs. case dap d rq rs of (r, rs', d') \<Rightarrow>
        unat (r AND 0xFFFF) \<le> CMSIS_DAP_PACKET_SIZE \<and> unat (r AND 0xFFFF) \<le> length rs')"

text \<open>
  What the ordering guarantee asks of one call of the pump with the request payloads
  \<open>ps\<close> buffered, in the words of the specification: for each request in turn, the
  command processor is invoked on the \<open>request\<close> array holding it, and then its response
  is written out as one RESPONSE frame, before the next request is looked at.
\<close>

fun pipelined_exchange ::
  "('d \<Rightarrow> u8 list \<Rightarrow> u8 list \<Rightarrow> u32 \<times> u8 list \<times> 'd) \<Rightarrow> 'd \<Rightarrow> int \<Rightarrow> u8 list \<Rightarrow> u8 list \<Rightarrow>
     u8 list list \<Rightarrow> event list" where
  "pipelined_exchange dap d fd rq rs [] = []"
| "pipelined_exchange dap d fd rq rs (p # ps) =
     (let rq' = p @ drop (length p) rq in
      case dap d rq' rs of (r, rs', d') \<Rightarrow>
        let n = unat (r AND 0xFFFF) in
        EvCommand rq' #
        EvWrite fd (dap_frame DAP_PKT_TYPE_RESPONSE 0 (take n rs')) (int (sizeof_header + n)) #
        pipelined_exchange dap d' fd rq' rs' ps)"

text \<open>
  A command processor for examples: it answers every request with one byte, the first
  byte of the request, and counts the commands it has seen.
\<close>

definition dap_ack :: "nat \<Rightarrow> u8 list \<Rightarrow> u8 list \<Rightarrow> u32 \<times> u8 list \<times> nat" where
  "dap_ack d rq rs = (0x00010001, hd rq # replicate 1023 0, Suc d)"

text \<open>Complete REQUEST frames, one behind the other, each with its reserved byte and payload.\<close>

definition request_stream :: "(u8 \<times> u8 list) list \<Rightarrow> u8 list" where
  "request_stream fs = concat (map (\<lambda>(rsv, p). dap_frame DAP_PKT_TYPE_REQUEST rsv p) fs)"

section \<open>Byte order and header layout\<close>

lemma le16_roundtrip: "le_to_h_u16 (h_u16_to_le w) = w"
  unfolding le_to_h_u16_def h_u16_to_le_def
  by (rule bit_word_eqI) (auto simp add: bit_simps)

lemma le32_roundtrip: "le_to_h_u32 (h_u32_to_le w) = w"
  unfolding le_to_h_u32_def h_u32_to_le_def
proof (rule bit_word_eqI)
  fix n :: nat
  assume n: "n < LENGTH(32)"
  consider "n < 8" | "8 \<le> n" "n < 16" | "16 \<le> n" "n < 24" | "24 \<le> n"
    by linarith
  then show "bit (ucast ([ucast w, ucast (drop_bit 8 w), ucast (drop_bit 16 w),
                  ucast (drop_bit 24 w) :: u8] ! 0) OR
          push_bit 8 (ucast ([ucast w, ucast (drop_bit 8 w), ucast (drop_bit 16 w),
                  ucast (drop_bit 24 w) :: u8] ! 1)) OR
          push_bit 16 (ucast ([ucast w, ucast (drop_bit 8 w), ucast (drop_bit 16 w),
                  ucast (drop_bit 24 w) :: u8] ! 2)) OR
          push_bit 24 (ucast ([ucast w, ucast (drop_bit 8 w), ucast (drop_bit 16 w),
                  ucast (drop_bit 24 w) :: u8] ! 3)) :: u32) n = bit w n"
    using n by cases (auto simp add: bit_simps)
qed

lemma length_hdr_bytes: "length (hdr_bytes h) = 8"
  by (simp add: hdr_bytes_def h_u32_to_le_def h_u16_to_le_def)

lemma hdr_bytes_parts:
  "take 4 (hdr_bytes h @ rest) = h_u32_to_le (signature h)"
  "take 2 (drop 4 (hdr_bytes h @ rest)) = h_u16_to_le (pkt_length h)"
  "(hdr_bytes h @ rest) ! 6 = packet_type h"
  "(hdr_bytes h @ rest) ! 7 = reserved h"
  by (simp_all add: hdr_bytes_def h_u32_to_le_def h_u16_to_le_def)

lemma hdr_of_bytes_hdr_bytes: "hdr_of_bytes (hdr_bytes h @ rest) = h"
  unfolding hdr_of_bytes_def hdr_bytes_parts le16_roundtrip le32_roundtrip by simp

section \<open>The reassembler on a buffered stream\<close>

lemma socket_available_client:
  "client_sockfd s \<noteq> 0 \<Longrightarrow> socks s (client_sockfd s) = Some k \<Longrightarrow>
     socket_available s = int (length (rxq k))"
  by (simp add: socket_available_def sys_ioctl_FIONREAD_def)

lemma socket_available_none:
  "client_sockfd s = 0 \<or> socks s (client_sockfd s) = None \<Longrightarrow> socket_available s = 0"
  by (auto simp add: socket_available_def sys_ioctl_FIONREAD_def)

lemma socket_peek_data:
  "client_sockfd s \<noteq> 0 \<Longrightarrow> socks s (client_sockfd s) = Some k \<Longrightarrow> 0 < n \<Longrightarrow>
   n \<le> length (rxq k) \<Longrightarrow> socket_peek n s = (int n, take n (rxq k), s)"
  by (auto simp add: socket_peek_def sys_recv_def)

lemma socket_read_data:
  "client_sockfd s \<noteq> 0 \<Longrightarrow> socks s (client_sockfd s) = Some k \<Longrightarrow>
   n \<le> length (rxq k) \<Longrightarrow>
   socket_read n s = (int n, take n (rxq k),
      s\<lparr>socks := (socks s)(client_sockfd s \<mapsto> k\<lparr>rxq := drop n (rxq k)\<rparr>)\<rparr>)"
  by (cases "n = 0") (auto simp add: socket_read_def sys_recv_def map_upd_triv)

lemma recv_dap_request_stream:
  assumes c: "client_sockfd s \<noteq> 0" and k: "socks s (client_sockfd s) = Some k"
  shows "recv_dap_request buf len s = stream_step buf len s k"
proof (cases "length (rxq k) < 8")
  case True
  then show ?thesis
    by (simp add: recv_dap_request_def stream_step_def socket_available_client [OF c k]
        sizeof_header_def)
next
  case False
  then have pk: "socket_peek 8 s = (8, take 8 (rxq k), s)"
    using socket_peek_data [OF c k, of 8] by simp
  have rd: "socket_read 8 s = (8, take 8 (rxq k),
      s\<lparr>socks := (socks s)(client_sockfd s \<mapsto> k\<lparr>rxq := drop 8 (rxq k)\<rparr>)\<rparr>)"
    using False socket_read_data [OF c k, of 8] by simp
  let ?s2 = "s\<lparr>socks := (socks s)(client_sockfd s \<mapsto> k\<lparr>rxq := drop 8 (rxq k)\<rparr>)\<rparr>"
  let ?l = "unat (pkt_length (hdr_of_bytes (take 8 (rxq k))))"
  have rd2: "8 + ?l \<le> length (rxq k) \<Longrightarrow> socket_read ?l ?s2 =
     (int ?l, take ?l (drop 8 (rxq k)),
      s\<lparr>socks := (socks s)(client_sockfd s \<mapsto> k\<lparr>rxq := drop (8 + ?l) (rxq k)\<rparr>)\<rparr>)"
    using socket_read_data [of ?s2 "k\<lparr>rxq := drop 8 (rxq k)\<rparr>" ?l] c
    by (simp add: add.commute)
  let ?h = "hdr_of_bytes (take 8 (rxq k))"
  have av: "socket_available s = int (length (rxq k))"
    by (rule socket_available_client [OF c k])
  have ul: "uint (pkt_length ?h) = int ?l"
    by (rule uint_nat)
  have short_iff: "int (length (rxq k)) < 8 + uint (pkt_length ?h) \<longleftrightarrow> length (rxq k) < 8 + ?l"
    unfolding ul by linarith
  note defs = recv_dap_request_def stream_step_def sizeof_header_def av pk rd Let_def short_iff
  show ?thesis
  proof (cases "signature ?h \<noteq> DAP_PKT_HDR_SIGNATURE \<or> packet_type ?h \<noteq> DAP_PKT_TYPE_REQUEST")
    case True
    then show ?thesis
      using False by (simp add: defs)
  next
    case good: False
    show ?thesis
    proof (cases "length (rxq k) < 8 + ?l")
      case True
      then show ?thesis
        using False good by (simp add: defs)
    next
      case full: False
      show ?thesis
      proof (cases "len < uint (pkt_length ?h)")
        case True
        then show ?thesis
          using False good full by (simp add: defs)
      next
        case fits: False
        from full have "8 + ?l \<le> length (rxq k)" by simp
        note rd2' = rd2 [OF this]
        show ?thesis
          using False good full fits by (simp add: defs rd2')
      qed
    qed
  qed
qed

lemma connected_simps:
  "client_sockfd (connected fd q) = fd"
  "socks (connected fd q) fd = Some \<lparr> rxq = q, fin = False, so_error = None, room = 4096, txq = [] \<rparr>"
  by (simp_all add: connected_def)

lemma recv_dap_request_no_client:
  "client_sockfd s = 0 \<or> socks s (client_sockfd s) = None \<Longrightarrow>
     recv_dap_request buf len s = (0, buf, s)"
  by (simp add: recv_dap_request_def socket_available_none sizeof_header_def)

lemma length_dap_frame: "length (dap_frame ty rsv p) = 8 + length p"
  by (simp add: dap_frame_def length_hdr_bytes)

lemma hdr_of_dap_frame:
  "8 \<le> m \<Longrightarrow> hdr_of_bytes (take 8 (take m (dap_frame ty rsv p @ rest))) =
     \<lparr> signature = DAP_PKT_HDR_SIGNATURE, pkt_length = of_nat (length p),
       packet_type = ty, reserved = rsv \<rparr>"
proof -
  assume "8 \<le> m"
  then have "take 8 (take m (dap_frame ty rsv p @ rest)) = take 8 (dap_frame ty rsv p @ rest)"
    by (simp add: min_def)
  also have "\<dots> = hdr_bytes \<lparr> signature = DAP_PKT_HDR_SIGNATURE, pkt_length = of_nat (length p),
       packet_type = ty, reserved = rsv \<rparr> @ []"
    by (simp add: dap_frame_def length_hdr_bytes)
  finally show ?thesis
    by (simp only: hdr_of_bytes_hdr_bytes)
qed

lemma unat_length16: "n < 65536 \<Longrightarrow> unat (of_nat n :: u16) = n"
  by (simp add: unat_of_nat)

lemma recv_prefix:
  assumes k: "socks s (client_sockfd s) = Some k"
    and q: "rxq k = take m (dap_frame DAP_PKT_TYPE_REQUEST rsv p)"
    and m: "m < 8 + length p" and p: "length p < 65536"
  shows "recv_dap_request buf len s = (0, buf, s)"
proof (cases "client_sockfd s = 0")
  case True
  then show ?thesis by (simp add: recv_dap_request_no_client)
next
  case False
  have len: "length (rxq k) = m"
    using m by (simp add: q length_dap_frame)
  show ?thesis
  proof (cases "m < 8")
    case True
    then show ?thesis
      by (simp add: recv_dap_request_stream [OF False k] stream_step_def len)
  next
    case False
    then have h: "hdr_of_bytes (take 8 (rxq k)) =
        \<lparr> signature = DAP_PKT_HDR_SIGNATURE, pkt_length = of_nat (length p),
          packet_type = DAP_PKT_TYPE_REQUEST, reserved = rsv \<rparr>"
      using hdr_of_dap_frame [of m DAP_PKT_TYPE_REQUEST rsv p "[]"] by (simp add: q)
    show ?thesis
      using m False
      by (simp add: recv_dap_request_stream [OF \<open>client_sockfd s \<noteq> 0\<close> k] stream_step_def len h
          unat_length16 [OF p])
  qed
qed

lemma recv_frame:
  assumes c: "client_sockfd s \<noteq> 0" and k: "socks s (client_sockfd s) = Some k"
    and q: "rxq k = dap_frame DAP_PKT_TYPE_REQUEST rsv p @ rest"
    and p: "int (length p) \<le> len" "length p < 65536"
  shows "recv_dap_request buf len s =
     (int (length p), p @ drop (length p) buf,
      s\<lparr>socks := (socks s)(client_sockfd s \<mapsto> k\<lparr>rxq := rest\<rparr>)\<rparr>)"
proof -
  have h: "hdr_of_bytes (take 8 (rxq k)) =
        \<lparr> signature = DAP_PKT_HDR_SIGNATURE, pkt_length = of_nat (length p),
          packet_type = DAP_PKT_TYPE_REQUEST, reserved = rsv \<rparr>"
    using hdr_of_dap_frame [of "8 + length p + length rest" DAP_PKT_TYPE_REQUEST rsv p rest]
    by (simp add: q length_dap_frame)
  have len: "length (rxq k) = 8 + length p + length rest"
    by (simp add: q length_dap_frame)
  have d8: "drop 8 (rxq k) = p @ rest"
    by (simp add: q dap_frame_def length_hdr_bytes)
  have dall: "drop (8 + length p) (rxq k) = rest"
    using d8 by (metis append_eq_conv_conj drop_drop add.commute)
  have u: "uint (of_nat (length p) :: u16) = int (length p)"
    using unat_length16 [OF p(2)] by (simp add: uint_nat)
  show ?thesis
    using p
    by (simp add: recv_dap_request_stream [OF c k] stream_step_def len h d8 dall
        unat_length16 [OF p(2)] u Let_def)
qed

lemma example_header_2000:
  "[0x44, 0x41, 0x50, 0x00, 0xD0, 0x07, 0x01, 0x00] =
     hdr_bytes \<lparr> signature = DAP_PKT_HDR_SIGNATURE, pkt_length = 2000,
                 packet_type = DAP_PKT_TYPE_REQUEST, reserved = 0 \<rparr>"
  by (simp add: hdr_bytes_def h_u32_to_le_def h_u16_to_le_def DAP_PKT_HDR_SIGNATURE_def
      DAP_PKT_TYPE_REQUEST_def)

lemma recv_oversized:
  assumes c: "client_sockfd s \<noteq> 0" and k: "socks s (client_sockfd s) = Some k"
    and q: "rxq k = hdr_bytes \<lparr> signature = DAP_PKT_HDR_SIGNATURE, pkt_length = l,
                 packet_type = DAP_PKT_TYPE_REQUEST, reserved = rsv \<rparr> @ rest"
    and l: "len < uint l"
  shows "recv_dap_request buf len s = (if length rest < unat l then 0 else -1, buf, s)"
proof -
  have h: "hdr_of_bytes (take 8 (rxq k)) = \<lparr> signature = DAP_PKT_HDR_SIGNATURE, pkt_length = l,
                 packet_type = DAP_PKT_TYPE_REQUEST, reserved = rsv \<rparr>"
    using hdr_of_bytes_hdr_bytes [of _ "[]"] by (simp add: q length_hdr_bytes)
  have len: "length (rxq k) = 8 + length rest"
    by (simp add: q length_hdr_bytes)
  show ?thesis
    using l by (simp add: recv_dap_request_stream [OF c k] stream_step_def h len Let_def)
qed

lemma recv_bad_signature:
  assumes c: "client_sockfd s \<noteq> 0" and k: "socks s (client_sockfd s) = Some k"
    and q: "8 \<le> length (rxq k)" and g: "le_to_h_u32 (take 4 (rxq k)) \<noteq> DAP_PKT_HDR_SIGNATURE"
  shows "recv_dap_request buf len s =
           (-1, buf, s\<lparr>socks := (socks s)(client_sockfd s \<mapsto> k\<lparr>rxq := drop 8 (rxq k)\<rparr>)\<rparr>)"
proof -
  have "signature (hdr_of_bytes (take 8 (rxq k))) = le_to_h_u32 (take 4 (rxq k))"
    by (simp add: hdr_of_bytes_def min_def)
  with g q show ?thesis
    by (simp add: recv_dap_request_stream [OF c k] stream_step_def Let_def)
qed

lemma recv_empty:
  assumes "socks s (client_sockfd s) = Some k" and "length (rxq k) < 8"
  shows "recv_dap_request buf len s = (0, buf, s)"
proof (cases "client_sockfd s = 0")
  case True
  then show ?thesis by (simp add: recv_dap_request_no_client)
next
  case False
  then show ?thesis
    using assms by (simp add: recv_dap_request_stream [OF False assms(1)] stream_step_def)
qed

lemma feed_chunks:
  assumes "client_sockfd s \<noteq> 0" and "socks s (client_sockfd s) = Some k"
    and "rxq k @ concat cs = dap_frame DAP_PKT_TYPE_REQUEST rsv p"
    and "cs \<noteq> []" and "last cs \<noteq> []"
    and "int (length p) \<le> len" and "length p < 65536"
  shows "feed cs buf len s =
           (replicate (length cs - 1) (0, []) @ [(int (length p), p)],
            p @ drop (length p) buf, with_rxq [] s)"
  using assms
proof (induction cs arbitrary: s k)
  case Nil
  then show ?case by simp
next
  case (Cons c cs)
  let ?s' = "deliver c s"
  let ?k' = "k\<lparr>rxq := rxq k @ c\<rparr>"
  have c': "client_sockfd ?s' \<noteq> 0" and k': "socks ?s' (client_sockfd ?s') = Some ?k'"
    using Cons.prems(1,2) by (simp_all add: deliver_def)
  have st: "?s'\<lparr>socks := (socks ?s')(client_sockfd ?s' \<mapsto> ?k'\<lparr>rxq := []\<rparr>)\<rparr> = with_rxq [] s"
    and st': "with_rxq [] ?s' = with_rxq [] s"
    using Cons.prems(2) by (simp_all add: deliver_def with_rxq_def)
  show ?case
  proof (cases "cs = []")
    case True
    then have q: "rxq ?k' = dap_frame DAP_PKT_TYPE_REQUEST rsv p @ []"
      using Cons.prems(3) by simp
    have "recv_dap_request buf len ?s' =
        (int (length p), p @ drop (length p) buf, with_rxq [] s)"
      using recv_frame [OF c' k' q Cons.prems(6,7), of buf] by (simp only: st)
    then show ?thesis
      using True by simp
  next
    case False
    then have "last cs \<in> set cs" and "last cs \<noteq> []"
      using Cons.prems(5) by simp_all
    then have ne: "concat cs \<noteq> []"
      by auto
    have "length (rxq k @ c) + length (concat cs) = length (rxq k @ concat (c # cs))"
      by simp
    also have "\<dots> = 8 + length p"
      by (simp only: Cons.prems(3) length_dap_frame)
    finally have m: "length (rxq k @ c) < 8 + length p"
      using ne by (cases "concat cs") simp_all
    have "take (length (rxq k @ c)) (rxq k @ concat (c # cs)) = rxq k @ c"
      by simp
    then have "rxq ?k' = take (length (rxq k @ c)) (dap_frame DAP_PKT_TYPE_REQUEST rsv p)"
      by (simp only: Cons.prems(3)) simp
    then have r: "recv_dap_request buf len ?s' = (0, buf, ?s')"
      by (rule recv_prefix [OF k' _ m Cons.prems(7)])
    have a: "rxq ?k' @ concat cs = dap_frame DAP_PKT_TYPE_REQUEST rsv p" and l: "last cs \<noteq> []"
      using Cons.prems(3,5) False by simp_all
    have "feed cs buf len ?s' =
           (replicate (length cs - 1) (0, []) @ [(int (length p), p)],
            p @ drop (length p) buf, with_rxq [] s)"
      using Cons.IH [OF c' k' a False l Cons.prems(6,7)] by (simp only: st')
    then show ?thesis
      using r False by (cases cs) simp_all
  qed
qed

section \<open>The encoder\<close>

lemma with_rxq_client:
  "socks s (client_sockfd s) = Some k \<Longrightarrow>
     with_rxq q s = s\<lparr>socks := (socks s)(client_sockfd s \<mapsto> k\<lparr>rxq := q\<rparr>)\<rparr>"
  by (simp add: with_rxq_def)

lemma with_rxq_same:
  "socks s (client_sockfd s) = Some k \<Longrightarrow> rxq k = q \<Longrightarrow> with_rxq q s = s"
  by (auto simp add: with_rxq_def map_upd_triv)

lemma with_rxq_connected: "with_rxq q (connected fd q') = connected fd q"
  by (simp add: with_rxq_def connected_def)

lemma recv_bad_type:
  assumes c: "client_sockfd s \<noteq> 0" and k: "socks s (client_sockfd s) = Some k"
    and q: "8 \<le> length (rxq k)" and g: "rxq k ! 6 \<noteq> DAP_PKT_TYPE_REQUEST"
  shows "recv_dap_request buf len s = (-1, buf, with_rxq (drop 8 (rxq k)) s)"
proof -
  have "packet_type (hdr_of_bytes (take 8 (rxq k))) = rxq k ! 6"
    by (simp add: hdr_of_bytes_def)
  with g q show ?thesis
    by (simp add: recv_dap_request_stream [OF c k] stream_step_def Let_def with_rxq_client [OF k])
qed

lemma sys_write_trace:
  "sys_write fd data s = (ret, s') \<Longrightarrow> trace s' = trace s @ [EvWrite fd data ret]"
  by (auto simp add: sys_write_def Let_def split: option.splits if_splits)

lemma send_dap_response_too_large:
  "1024 < len \<Longrightarrow> send_dap_response buf len s = (-1, s)"
  by (simp add: send_dap_response_def CMSIS_DAP_PACKET_SIZE_def sizeof_header_def)

lemma send_dap_response_write:
  assumes "0 \<le> len" and "len \<le> 1024" and "client_sockfd s \<noteq> 0"
    and "sys_write (client_sockfd s)
           (hdr_bytes \<lparr> signature = DAP_PKT_HDR_SIGNATURE, pkt_length = word_of_int len,
                        packet_type = DAP_PKT_TYPE_RESPONSE, reserved = 0 \<rparr> @ take (nat len) buf) s
         = (ret, s')"
  shows "send_dap_response buf len s =
           (if ret < 0 then ret else if ret = len + 8 then 0 else -1, s')"
  using assms
  by (simp add: send_dap_response_def CMSIS_DAP_PACKET_SIZE_def sizeof_header_def
      socket_write_def Let_def)

lemma le16_bytes:
  assumes "n < 65536"
  shows "h_u16_to_le (of_nat n) = [of_nat (n mod 256), of_nat (n div 256)]"
proof -
  have "unat (ucast (of_nat n :: u16) :: u8) = unat (of_nat (n mod 256) :: u8)"
    using assms by (simp add: unsigned_ucast_eq unat_of_nat take_bit_eq_mod)
  moreover have "unat (drop_bit 8 (of_nat n :: u16)) = drop_bit 8 (unat (of_nat n :: u16))"
    by (rule unat_drop_bit_eq)
  then have "unat (drop_bit 8 (of_nat n :: u16)) = n div 256"
    using assms by (simp add: unat_of_nat drop_bit_eq_div)
  then have "unat (ucast (drop_bit 8 (of_nat n :: u16)) :: u8) = unat (of_nat (n div 256) :: u8)"
    by (simp only: unsigned_ucast_eq unat_of_nat take_bit_eq_mod)
  ultimately show ?thesis
    by (simp add: h_u16_to_le_def word_unat_eq_iff)
qed

lemma signature_bytes: "h_u32_to_le DAP_PKT_HDR_SIGNATURE = [0x44, 0x41, 0x50, 0x00]"
  by (simp add: h_u32_to_le_def DAP_PKT_HDR_SIGNATURE_def)

lemma dap_frame_bytes:
  "length p < 65536 \<Longrightarrow>
   dap_frame ty rsv p =
     [0x44, 0x41, 0x50, 0x00, of_nat (length p mod 256), of_nat (length p div 256), ty, rsv] @ p"
  by (simp add: dap_frame_def hdr_bytes_def signature_bytes le16_bytes)

section \<open>The disconnect probe\<close>

lemma sys_recv_keeps:
  "sys_recv fd n True s = (r, x, s') \<Longrightarrow>
     client_sockfd s' = client_sockfd s \<and> server_sockfd s' = server_sockfd s \<and>
     dom (socks s') = dom (socks s) \<and> backlog s' = backlog s \<and> trace s' = trace s"
  by (auto simp add: sys_recv_def split: option.splits if_splits)

lemma probe_after_fin:
  "socks s (client_sockfd s) = Some k \<Longrightarrow> rxq k = [] \<Longrightarrow> fin k \<Longrightarrow> so_error k = None \<Longrightarrow>
   signals s = n \<Longrightarrow>
     fst (socket_disconnected s) = 1 \<and>
     client_sockfd (snd (socket_disconnected s)) = client_sockfd s \<and>
     socks (snd (socket_disconnected s)) = socks s \<and>
     trace (snd (socket_disconnected s)) = trace s"
proof (induction n arbitrary: s)
  case 0
  then have "sys_recv (client_sockfd s) 1 True s = (0, [], s)"
    by (simp add: sys_recv_def)
  then show ?case
    by (simp add: socket_disconnected.simps [of s])
next
  case (Suc n)
  let ?s1 = "s\<lparr>errno := EINTR, signals := n\<rparr>"
  from Suc.prems have r: "sys_recv (client_sockfd s) 1 True s = (-1, [], ?s1)"
    by (simp add: sys_recv_def)
  have "socket_disconnected s = socket_disconnected ?s1"
    using r by (simp add: socket_disconnected.simps [of s])
  moreover have "fst (socket_disconnected ?s1) = 1 \<and>
     client_sockfd (snd (socket_disconnected ?s1)) = client_sockfd ?s1 \<and>
     socks (snd (socket_disconnected ?s1)) = socks ?s1 \<and>
     trace (snd (socket_disconnected ?s1)) = trace ?s1"
    using Suc.prems by (intro Suc.IH [of ?s1]) simp_all
  ultimately show ?case by simp
qed

lemma probe_first:
  assumes "sys_recv (client_sockfd s) 1 True s = (r, x, s')"
  shows "r = 0 \<Longrightarrow> socket_disconnected s = (1, s')"
    and "r < 0 \<Longrightarrow> errno s' \<in> {EAGAIN, ETIMEDOUT, ENOTCONN} \<Longrightarrow> socket_disconnected s = (0, s')"
    and "r < 0 \<Longrightarrow> errno s' \<notin> {EINTR, EAGAIN, ETIMEDOUT, ENOTCONN} \<Longrightarrow>
           socket_disconnected s = (- errno s', s')"
    and "0 < r \<Longrightarrow> socket_disconnected s = (0, s')"
  using assms
  by (auto simp add: socket_disconnected.simps [of s] EINTR_def EAGAIN_def ETIMEDOUT_def
      ENOTCONN_def)

section \<open>Connections are kept by the codec and the pump\<close>

lemma same_sockets_refl: "same_sockets s s"
  by (simp add: same_sockets_def)

lemma same_sockets_trans: "same_sockets s t \<Longrightarrow> same_sockets t u \<Longrightarrow> same_sockets s u"
  by (simp add: same_sockets_def)

lemma same_sockets_one_client: "same_sockets s s' \<Longrightarrow> one_client s \<Longrightarrow> one_client s'"
  by (simp add: same_sockets_def one_client_def connections_def)

lemma sys_recv_same: "sys_recv fd n peek s = (r, x, s') \<Longrightarrow> same_sockets s s'"
  by (auto simp add: sys_recv_def same_sockets_def split: option.splits if_splits)

lemma sys_write_same: "sys_write fd data s = (r, s') \<Longrightarrow> same_sockets s s'"
  by (auto simp add: sys_write_def same_sockets_def Let_def split: option.splits if_splits)

lemma socket_peek_same: "socket_peek n s = (r, x, s') \<Longrightarrow> same_sockets s s'"
  by (auto simp add: socket_peek_def same_sockets_refl split: if_splits dest: sys_recv_same)

lemma socket_read_same: "socket_read n s = (r, x, s') \<Longrightarrow> same_sockets s s'"
  by (auto simp add: socket_read_def same_sockets_refl split: if_splits dest: sys_recv_same)

lemma send_dap_response_same: "send_dap_response buf len s = (r, s') \<Longrightarrow> same_sockets s s'"
  by (auto simp add: send_dap_response_def socket_write_def Let_def same_sockets_refl
      split: if_splits prod.splits dest: sys_write_same)

lemma recv_dap_request_same:
  assumes "recv_dap_request buf len s = (r, buf', s')"
  shows "same_sockets s s'"
proof (cases "client_sockfd s = 0 \<or> socks s (client_sockfd s) = None")
  case True
  then show ?thesis
    using assms by (auto simp add: recv_dap_request_no_client same_sockets_refl)
next
  case False
  then obtain k where c: "client_sockfd s \<noteq> 0" and k: "socks s (client_sockfd s) = Some k"
    by auto
  show ?thesis
    using assms k unfolding recv_dap_request_stream [OF c k] stream_step_def Let_def
    by (auto simp add: same_sockets_def split: if_splits)
qed

lemma socket_disconnected_same: "same_sockets s (snd (socket_disconnected s))"
proof (induction s rule: socket_disconnected.induct)
  case (1 s)
  obtain r x s' where rv: "sys_recv (client_sockfd s) 1 True s = (r, x, s')"
    by (cases "sys_recv (client_sockfd s) 1 True s")
  have st: "same_sockets s s'"
    using rv by (rule sys_recv_same)
  show ?case
  proof (cases "r < 0 \<and> errno s' = EINTR")
    case True
    then have "same_sockets s' (snd (socket_disconnected s'))"
      using "1.IH" [of r "(x, s')" x s'] rv by simp
    moreover have "socket_disconnected s = socket_disconnected s'"
      using rv True by (simp add: socket_disconnected.simps [of s])
    ultimately show ?thesis
      using st by (simp add: same_sockets_trans)
  next
    case False
    then have "snd (socket_disconnected s) = s'"
      using rv by (auto simp add: socket_disconnected.simps [of s])
    then show ?thesis using st by simp
  qed
qed

lemma process_dap_requests_same:
  "same_sockets s (snd (snd (process_dap_requests dap d s)))"
proof (induction dap d s rule: process_dap_requests.induct)
  case (1 dap d s)
  obtain ret buf s1 where rv: "recv_dap_request (request s) (int CMSIS_DAP_PACKET_SIZE) s = (ret, buf, s1)"
    by (cases "recv_dap_request (request s) (int CMSIS_DAP_PACKET_SIZE) s")
  let ?s2 = "s1\<lparr>request := buf\<rparr>"
  have s2: "same_sockets s ?s2"
    using recv_dap_request_same [OF rv] by (simp add: same_sockets_def)
  show ?case
  proof (cases "ret \<le> 0")
    case True
    then show ?thesis
      using rv s2 by (simp add: process_dap_requests.simps [of dap d s])
  next
    case False
    obtain r resp d' where dv: "dap d (request ?s2) (response ?s2) = (r, resp, d')"
      by (cases "dap d (request ?s2) (response ?s2)")
    let ?s3 = "?s2\<lparr>response := resp, trace := trace ?s2 @ [EvCommand (request ?s2)]\<rparr>"
    obtain ret' s4 where sv: "send_dap_response (response ?s3) (uint (r AND 0xFFFF)) ?s3 = (ret', s4)"
      by (cases "send_dap_response (response ?s3) (uint (r AND 0xFFFF)) ?s3")
    have s4: "same_sockets s s4"
      using send_dap_response_same [OF sv] s2 by (simp add: same_sockets_def)
    show ?thesis
    proof (cases "ret' < 0")
      case True
      then show ?thesis
        using rv dv sv False s4 by (simp add: process_dap_requests.simps [of dap d s])
    next
      case nonneg: False
      have "same_sockets s4 (snd (snd (process_dap_requests dap d' s4)))"
        using "1.IH" [of ret "(buf, s1)" buf s1 ?s2 r "(resp, d')" resp d' ?s3
            "uint (r AND 0xFFFF)" ret' s4] rv dv sv False nonneg
        by simp
      moreover have "process_dap_requests dap d s = process_dap_requests dap d' s4"
        using rv dv sv False nonneg by (simp add: process_dap_requests.simps [of dap d s])
      ultimately show ?thesis
        using s4 by (simp add: same_sockets_trans)
    qed
  qed
qed

lemma handle_server_one_client:
  assumes "one_client s" and "fresh_accept s"
  shows "one_client (snd (handle_server s))"
  using assms
  by (auto simp add: handle_server_def sys_accept_def sys_close_def sys_fcntl_NONBLOCK_def
      one_client_def connections_def fresh_accept_def Let_def
      split: list.splits sum.splits prod.splits if_splits)

lemma handle_client_one_client:
  assumes "one_client s"
  shows "one_client (snd (handle_client s))"
proof -
  have "same_sockets s (snd (socket_disconnected s))"
    by (rule socket_disconnected_same)
  then show ?thesis
    using assms
    by (auto simp add: handle_client_def sys_close_def one_client_def connections_def
        same_sockets_def split_beta)
qed

lemma handle_server_reject:
  assumes "client_sockfd s \<noteq> 0" and "backlog s = Inr (fd, k) # rest" and "0 \<le> fd"
    and "fd \<notin> dom (socks s)"
  shows "handle_server s = (0, s\<lparr>backlog := rest, trace := trace s @ [EvClose fd]\<rparr>)"
proof -
  have "(socks s)(fd := None) = socks s"
    using assms(4) by (auto simp add: fun_upd_idem_iff)
  then show ?thesis
    using assms(1,2,3) by (simp add: handle_server_def sys_accept_def sys_close_def)
qed

section \<open>The pump on a stream of complete frames\<close>

lemma sys_write_full:
  assumes "socks s fd = Some k" and "so_error k = None" and "length data \<le> room k"
  shows "sys_write fd data s =
      (int (length data), s\<lparr>socks := (socks s)(fd \<mapsto>
                k\<lparr>txq := txq k @ data, room := room k - length data\<rparr>),
            trace := trace s @ [EvWrite fd data (int (length data))]\<rparr>)"
proof (cases "data = []")
  case True
  then show ?thesis
    using assms by (simp add: sys_write_def Let_def)
next
  case False
  then have "0 < length data" by simp
  with assms(3) have "0 < room k" by linarith
  then show ?thesis
    using assms by (simp add: sys_write_def Let_def min_def)
qed

lemma send_dap_response_ok:
  assumes c: "client_sockfd s \<noteq> 0" and k: "socks s (client_sockfd s) = Some k"
    and e: "so_error k = None" and r: "8 + n \<le> room k"
    and n: "n \<le> 1024" "n \<le> length buf"
  shows "send_dap_response buf (int n) s =
     (0, s\<lparr>socks := (socks s)(client_sockfd s \<mapsto>
                k\<lparr>txq := txq k @ dap_frame DAP_PKT_TYPE_RESPONSE 0 (take n buf),
                  room := room k - (8 + n)\<rparr>),
            trace := trace s @ [EvWrite (client_sockfd s)
                (dap_frame DAP_PKT_TYPE_RESPONSE 0 (take n buf)) (int (8 + n))]\<rparr>)"
proof -
  let ?data = "hdr_bytes \<lparr> signature = DAP_PKT_HDR_SIGNATURE, pkt_length = word_of_int (int n),
                  packet_type = DAP_PKT_TYPE_RESPONSE, reserved = 0 \<rparr> @ take (nat (int n)) buf"
  have d: "?data = dap_frame DAP_PKT_TYPE_RESPONSE 0 (take n buf)"
    using n(2) by (simp add: dap_frame_def min_def)
  have l: "length ?data = 8 + n"
    using n(2) by (simp add: length_hdr_bytes)
  have "sys_write (client_sockfd s) ?data s =
      (int (8 + n), s\<lparr>socks := (socks s)(client_sockfd s \<mapsto>
                k\<lparr>txq := txq k @ ?data, room := room k - (8 + n)\<rparr>),
            trace := trace s @ [EvWrite (client_sockfd s) ?data (int (8 + n))]\<rparr>)"
    using sys_write_full [OF k e, of ?data] r unfolding l by simp
  then show ?thesis
    using send_dap_response_write [OF _ _ c, of "int n" buf] n(1) unfolding d by simp
qed

lemma pump_drains:
  assumes "client_sockfd s \<noteq> 0" and "socks s (client_sockfd s) = Some k"
    and "rxq k = request_stream fs"
    and "\<forall>(rsv, p) \<in> set fs. p \<noteq> [] \<and> length p \<le> CMSIS_DAP_PACKET_SIZE"
    and "so_error k = None" and "1032 * length fs \<le> room k"
    and "dap_ok dap"
  shows "case process_dap_requests dap d s of (r, d', s') \<Rightarrow>
           r = 0 \<and>
           trace s' = trace s @ pipelined_exchange dap d (client_sockfd s) (request s) (response s)
                                  (map snd fs) \<and>
           pending s' = 0"
  using assms
proof (induction fs arbitrary: s k d)
  case Nil
  then have "recv_dap_request (request s) (int CMSIS_DAP_PACKET_SIZE) s = (0, request s, s)"
    using recv_empty [of s k] by (simp add: request_stream_def)
  then have "process_dap_requests dap d s = (0, d, s)"
    by (simp add: process_dap_requests.simps [of dap d s])
  then show ?case
    using Nil.prems(2,3) by (simp add: pending_def request_stream_def)
next
  case (Cons f fs)
  obtain rsv p where f: "f = (rsv, p)" by (cases f)
  let ?fd = "client_sockfd s"
  let ?rest = "request_stream fs"
  let ?rq = "p @ drop (length p) (request s)"
  have p: "p \<noteq> []" "length p \<le> 1024"
    using Cons.prems(4) f by (simp_all add: CMSIS_DAP_PACKET_SIZE_def)
  have q: "rxq k = dap_frame DAP_PKT_TYPE_REQUEST rsv p @ ?rest"
    using Cons.prems(3) f by (simp add: request_stream_def)
  let ?k1 = "k\<lparr>rxq := ?rest\<rparr>"
  let ?s1 = "s\<lparr>socks := (socks s)(?fd \<mapsto> ?k1)\<rparr>"
  have rv: "recv_dap_request (request s) (int CMSIS_DAP_PACKET_SIZE) s = (int (length p), ?rq, ?s1)"
    using recv_frame [OF Cons.prems(1,2) q, of "int CMSIS_DAP_PACKET_SIZE" "request s"] p(2)
    by (simp add: CMSIS_DAP_PACKET_SIZE_def)
  let ?s2 = "?s1\<lparr>request := ?rq\<rparr>"
  obtain r resp d' where dv: "dap d ?rq (response s) = (r, resp, d')"
    by (cases "dap d ?rq (response s)")
  let ?n = "unat (r AND 0xFFFF)"
  have n: "?n \<le> 1024" "?n \<le> length resp"
    using Cons.prems(7) [unfolded dap_ok_def, rule_format, of d ?rq "response s"] dv
    by (simp_all add: CMSIS_DAP_PACKET_SIZE_def)
  let ?s3 = "?s2\<lparr>response := resp, trace := trace ?s2 @ [EvCommand ?rq]\<rparr>"
  let ?frame = "dap_frame DAP_PKT_TYPE_RESPONSE 0 (take ?n resp)"
  let ?k4 = "?k1\<lparr>txq := txq ?k1 @ ?frame, room := room ?k1 - (8 + ?n)\<rparr>"
  let ?s4 = "?s3\<lparr>socks := (socks ?s3)(?fd \<mapsto> ?k4),
                   trace := trace ?s3 @ [EvWrite ?fd ?frame (int (8 + ?n))]\<rparr>"
  have room: "8 + ?n \<le> room ?k1" "1032 * length fs \<le> room ?k4"
    using Cons.prems(6) n(1) by simp_all
  have sv: "send_dap_response resp (int ?n) ?s3 = (0, ?s4)"
    using send_dap_response_ok [of ?s3 ?k1 ?n resp] Cons.prems(1,5) room(1) n by simp
  have step: "process_dap_requests dap d s = process_dap_requests dap d' ?s4"
    using rv dv sv p(1) by (simp add: process_dap_requests.simps [of dap d s])
  have ok: "\<forall>(rsv, p) \<in> set fs. p \<noteq> [] \<and> length p \<le> CMSIS_DAP_PACKET_SIZE"
    using Cons.prems(4) by simp
  have "case process_dap_requests dap d' ?s4 of (r, d'', s') \<Rightarrow>
           r = 0 \<and>
           trace s' = trace ?s4 @ pipelined_exchange dap d' (client_sockfd ?s4) (request ?s4)
                                    (response ?s4) (map snd fs) \<and>
           pending s' = 0"
    using Cons.prems(1,5) room(2)
    by (intro Cons.IH [of ?s4 ?k4 d'] ok Cons.prems(7)) simp_all
  then show ?case
    unfolding step using dv f by (simp add: split_beta sizeof_header_def Let_def)
qed


lemma dap_ok_dap_ack: "dap_ok dap_ack"
  by (simp add: dap_ok_def dap_ack_def CMSIS_DAP_PACKET_SIZE_def)

lemma pump_empty_payload:
  assumes c: "client_sockfd s \<noteq> 0" and k: "socks s (client_sockfd s) = Some k"
    and q: "rxq k = dap_frame DAP_PKT_TYPE_REQUEST rsv [] @ rest"
  shows "process_dap_requests dap d s = (0, d, with_rxq rest s)"
proof -
  have "recv_dap_request (request s) (int CMSIS_DAP_PACKET_SIZE) s =
      (0, request s, with_rxq rest s)"
    using recv_frame [OF c k, of rsv "[]" rest "int CMSIS_DAP_PACKET_SIZE" "request s"] q
    by (simp add: with_rxq_client [OF k])
  then show ?thesis
    by (simp add: process_dap_requests.simps [of dap d s] with_rxq_def split: option.splits)
qed

section \<open>A tick with less than a header buffered\<close>

lemma recv_short:
  assumes "pending s < 8"
  shows "recv_dap_request buf len s = (0, buf, s)"
proof (cases "socks s (client_sockfd s)")
  case None
  then show ?thesis by (simp add: recv_dap_request_no_client)
next
  case (Some k)
  then show ?thesis
    using assms recv_empty [of s k buf len] by (simp add: pending_def)
qed

lemma pump_short:
  assumes "pending s < 8"
  shows "process_dap_requests dap d s = (0, d, s)"
  using recv_short [OF assms, of "request s" "int CMSIS_DAP_PACKET_SIZE"]
  by (simp add: process_dap_requests.simps [of dap d s])

lemma sys_recv_peek_pending:
  "sys_recv (client_sockfd s) n True s = (r, x, s') \<Longrightarrow> pending s' = pending s"
  by (auto simp add: sys_recv_def pending_def split: option.splits if_splits)

lemma socket_disconnected_pending: "pending (snd (socket_disconnected s)) = pending s"
proof (induction s rule: socket_disconnected.induct)
  case (1 s)
  obtain r x s' where rv: "sys_recv (client_sockfd s) 1 True s = (r, x, s')"
    by (cases "sys_recv (client_sockfd s) 1 True s")
  have st: "pending s' = pending s"
    using rv by (rule sys_recv_peek_pending)
  show ?case
  proof (cases "r < 0 \<and> errno s' = EINTR")
    case True
    then have "pending (snd (socket_disconnected s')) = pending s'"
      using "1.IH" [of r "(x, s')" x s'] rv by simp
    moreover have "socket_disconnected s = socket_disconnected s'"
      using rv True by (simp add: socket_disconnected.simps [of s])
    ultimately show ?thesis
      using st by simp
  next
    case False
    then have "snd (socket_disconnected s) = s'"
      using rv by (auto simp add: socket_disconnected.simps [of s])
    then show ?thesis using st by simp
  qed
qed

lemma tick_short:
  assumes "handle_server s = (r1, s1)" and "pending s1 < 8"
  shows "fst (cmsis_dap_tcp_process dap d s) = 0"
proof -
  obtain r2 s2 where c: "handle_client s1 = (r2, s2)"
    by (cases "handle_client s1")
  have "client_sockfd s2 = 0 \<or> pending s2 < 8"
    using c assms(2) socket_disconnected_pending [of s1]
    by (auto simp add: handle_client_def split_beta split: if_splits)
  then show ?thesis
    using assms(1) c by (auto simp add: cmsis_dap_tcp_process_def pump_short)
qed

section \<open>What a write reports\<close>

lemma sys_write_ret:
  assumes "socks s fd = Some k" and "so_error k = None" and "data \<noteq> []"
  shows "fst (sys_write fd data s) =
           (if room k = 0 then -1 else int (min (length data) (room k)))"
  using assms by (simp add: sys_write_def Let_def)

section \<open>Claims about the frame codec\<close>

text \<open>
  Claim C1, as stated: a payload encoded by \<open>send_dap_response\<close> and fed to
  \<open>recv_dap_request\<close> comes back. It does not: \<open>send_dap_response\<close> writes the type
  byte 0x02 (RESPONSE), and \<open>recv_dap_request\<close> accepts only 0x01 (REQUEST). For the
  payload \<open>[0xAA]\<close> the encoder emits the nine bytes below, and the reassembler answers
  them with \<open>-1\<close> after discarding the header.
\<close>

theorem framing_round_trip_counterexample:
  "sent (snd (send_dap_response [0xAA] 1 (connected 3 []))) =
     [0x44, 0x41, 0x50, 0x00, 0x01, 0x00, 0x02, 0x00, 0xAA] \<and>
   recv_dap_request (replicate 1024 0) 1024
     (connected 3 [0x44, 0x41, 0x50, 0x00, 0x01, 0x00, 0x02, 0x00, 0xAA]) =
     (-1, replicate 1024 0, connected 3 [0xAA])"
proof
  show "sent (snd (send_dap_response [0xAA] 1 (connected 3 []))) =
     [0x44, 0x41, 0x50, 0x00, 0x01, 0x00, 0x02, 0x00, 0xAA]"
    by (simp add: send_dap_response_def socket_write_def sys_write_def connected_def sent_def
        CMSIS_DAP_PACKET_SIZE_def sizeof_header_def hdr_bytes_def signature_bytes
        h_u16_to_le_def DAP_PKT_TYPE_RESPONSE_def Let_def)
  show "recv_dap_request (replicate 1024 0) 1024
     (connected 3 [0x44, 0x41, 0x50, 0x00, 0x01, 0x00, 0x02, 0x00, 0xAA]) =
     (-1, replicate 1024 0, connected 3 [0xAA])"
    using recv_bad_type [of "connected 3 [0x44, 0x41, 0x50, 0x00, 0x01, 0x00, 0x02, 0x00, 0xAA]" _
        "replicate 1024 0" 1024]
    by (simp add: connected_simps with_rxq_connected DAP_PKT_TYPE_REQUEST_def)
qed

text \<open>
  Claim C1, amended: for every payload \<open>p\<close> of at most 1024 bytes, a REQUEST frame that
  carries \<open>p\<close> and reaches an idle connection split into chunks in any way (the last
  chunk not empty), with \<open>recv_dap_request\<close> called after the arrival of each chunk,
  yields 0 with nothing consumed after every chunk but the last, and after the last
  chunk the length of \<open>p\<close> with exactly the bytes of \<open>p\<close> at the start of the
  buffer; the connection is left with nothing buffered.
\<close>

theorem framing_round_trip:
  assumes "client_sockfd s \<noteq> 0" and "socks s (client_sockfd s) = Some k" and "rxq k = []"
    and "concat cs = dap_frame DAP_PKT_TYPE_REQUEST rsv p"
    and "length p \<le> CMSIS_DAP_PACKET_SIZE"
    and "cs \<noteq> []" and "last cs \<noteq> []"
  shows "feed cs buf (int CMSIS_DAP_PACKET_SIZE) s =
           (replicate (length cs - 1) (0, []) @ [(int (length p), p)],
            p @ drop (length p) buf, s)"
proof -
  have "rxq k @ concat cs = dap_frame DAP_PKT_TYPE_REQUEST rsv p"
    using assms(3,4) by simp
  moreover have "int (length p) \<le> int CMSIS_DAP_PACKET_SIZE" and "length p < 65536"
    using assms(5) by (simp_all add: CMSIS_DAP_PACKET_SIZE_def)
  ultimately have "feed cs buf (int CMSIS_DAP_PACKET_SIZE) s =
           (replicate (length cs - 1) (0, []) @ [(int (length p), p)],
            p @ drop (length p) buf, with_rxq [] s)"
    using feed_chunks [OF assms(1,2) _ assms(6,7)] by simp
  then show ?thesis
    by (simp only: with_rxq_same [OF assms(2,3)])
qed

theorem framing_round_trip_witness:
  "feed [[0x44, 0x41], [0x50, 0x00, 0x02, 0x00, 0x01, 0x00, 0xAA], [0xBB]] (replicate 1024 0)
     (int CMSIS_DAP_PACKET_SIZE) (connected 3 []) =
   ([(0, []), (0, []), (2, [0xAA, 0xBB])], [0xAA, 0xBB] @ replicate 1022 0, connected 3 [])"
  using framing_round_trip [of "connected 3 []" _
      "[[0x44, 0x41], [0x50, 0x00, 0x02, 0x00, 0x01, 0x00, 0xAA], [0xBB]]" 0 "[0xAA, 0xBB]"
      "replicate 1024 0"]
  by (simp add: connected_simps dap_frame_bytes DAP_PKT_TYPE_REQUEST_def
      CMSIS_DAP_PACKET_SIZE_def)

text \<open>
  Claim C2, as stated: a header with the right signature and type REQUEST that declares
  more than 1024 bytes always gives a negative result. It does not while the declared
  payload has not arrived in full: the check for a complete packet comes first. With
  only the header declaring 2000 bytes buffered the result is 0.
\<close>

theorem oversized_length_counterexample:
  "recv_dap_request (replicate 1024 0) 1024
     (connected 3 [0x44, 0x41, 0x50, 0x00, 0xD0, 0x07, 0x01, 0x00]) =
   (0, replicate 1024 0, connected 3 [0x44, 0x41, 0x50, 0x00, 0xD0, 0x07, 0x01, 0x00])"
  unfolding example_header_2000
  using recv_oversized [of "connected 3 (hdr_bytes \<lparr> signature = DAP_PKT_HDR_SIGNATURE,
      pkt_length = 2000, packet_type = DAP_PKT_TYPE_REQUEST, reserved = 0 \<rparr>)" _ 2000 0 "[]" 1024
      "replicate 1024 0"]
  by (simp add: connected_simps)

text \<open>
  Claim C2, amended: when the buffered stream starts with a header with the right
  signature and type REQUEST whose declared length exceeds the capacity \<open>len\<close> of the
  receive buffer, \<open>recv_dap_request\<close> returns 0 as long as fewer payload bytes than
  declared are buffered behind the header and \<open>-1\<close> once all of them are; in both
  cases it consumes no byte of the stream and leaves the buffer as it was.
\<close>

theorem oversized_length:
  assumes "client_sockfd s \<noteq> 0" and "socks s (client_sockfd s) = Some k"
    and "rxq k = hdr_bytes \<lparr> signature = DAP_PKT_HDR_SIGNATURE, pkt_length = l,
                 packet_type = DAP_PKT_TYPE_REQUEST, reserved = rsv \<rparr> @ rest"
    and "len < uint l"
  shows "recv_dap_request buf len s =
           (if length rest < unat l then 0 else -1, buf, s)"
  using assms by (rule recv_oversized)

theorem oversized_length_witness:
  "recv_dap_request (replicate 1024 0) 1024
     (connected 3 (hdr_bytes \<lparr> signature = DAP_PKT_HDR_SIGNATURE, pkt_length = 2000,
                 packet_type = DAP_PKT_TYPE_REQUEST, reserved = 0 \<rparr> @ replicate 2000 7)) =
   (-1, replicate 1024 0,
     connected 3 (hdr_bytes \<lparr> signature = DAP_PKT_HDR_SIGNATURE, pkt_length = 2000,
                 packet_type = DAP_PKT_TYPE_REQUEST, reserved = 0 \<rparr> @ replicate 2000 7))"
  using oversized_length [of "connected 3 (hdr_bytes \<lparr> signature = DAP_PKT_HDR_SIGNATURE,
      pkt_length = 2000, packet_type = DAP_PKT_TYPE_REQUEST, reserved = 0 \<rparr> @ replicate 2000 7)"
      _ 2000 0 "replicate 2000 7" 1024 "replicate 1024 0"]
  by (simp add: connected_simps)

text \<open>
  Claim C3, as stated: four bytes that do not begin a signature, followed by a complete
  valid REQUEST frame, cost one error, after which the frame is reassembled. They do
  not: the eight bytes examined and discarded are the four stray bytes and the
  signature of the frame. Of four zero bytes and a frame with the payload
  \<open>[0xAA, 0xBB]\<close>, the first call leaves six bytes, and every later call returns 0 and
  changes nothing.
\<close>

theorem bad_signature_recovery_counterexample:
  "recv_dap_request (replicate 1024 0) 1024
     (connected 3 [0, 0, 0, 0, 0x44, 0x41, 0x50, 0x00, 0x02, 0x00, 0x01, 0x00, 0xAA, 0xBB]) =
     (-1, replicate 1024 0, connected 3 [0x02, 0x00, 0x01, 0x00, 0xAA, 0xBB]) \<and>
   recv_dap_request (replicate 1024 0) 1024 (connected 3 [0x02, 0x00, 0x01, 0x00, 0xAA, 0xBB]) =
     (0, replicate 1024 0, connected 3 [0x02, 0x00, 0x01, 0x00, 0xAA, 0xBB])"
proof
  let ?q = "[0, 0, 0, 0, 0x44, 0x41, 0x50, 0x00, 0x02, 0x00, 0x01, 0x00, 0xAA, 0xBB] :: u8 list"
  have "le_to_h_u32 (take 4 ?q) \<noteq> DAP_PKT_HDR_SIGNATURE"
    by (simp add: le_to_h_u32_def DAP_PKT_HDR_SIGNATURE_def)
  then show "recv_dap_request (replicate 1024 0) 1024 (connected 3 ?q) =
     (-1, replicate 1024 0, connected 3 [0x02, 0x00, 0x01, 0x00, 0xAA, 0xBB])"
    using recv_bad_signature [of "connected 3 ?q" _ "replicate 1024 0" 1024]
    by (simp add: connected_def)
  show "recv_dap_request (replicate 1024 0) 1024 (connected 3 [0x02, 0x00, 0x01, 0x00, 0xAA, 0xBB]) =
     (0, replicate 1024 0, connected 3 [0x02, 0x00, 0x01, 0x00, 0xAA, 0xBB])"
    using recv_empty [of "connected 3 [0x02, 0x00, 0x01, 0x00, 0xAA, 0xBB]"]
    by (simp add: connected_simps)
qed

text \<open>
  Claim C3, amended: of eight bytes (one header's worth) whose first four are not the
  signature, followed by one complete valid REQUEST frame with a payload \<open>p\<close> that fits
  the buffer, the first call returns \<open>-1\<close> and discards exactly the eight bytes it
  examined, the second call returns the length of \<open>p\<close> with \<open>p\<close> intact at the start
  of the buffer and leaves nothing buffered, and the third call returns 0.
\<close>

theorem bad_signature_recovery:
  assumes "client_sockfd s \<noteq> 0" and "socks s (client_sockfd s) = Some k"
    and "rxq k = g @ dap_frame DAP_PKT_TYPE_REQUEST rsv p"
    and "length g = sizeof_header" and "le_to_h_u32 (take 4 g) \<noteq> DAP_PKT_HDR_SIGNATURE"
    and "int (length p) \<le> len" and "length p < 65536"
  shows "recv_dap_request buf len s =
           (-1, buf, with_rxq (dap_frame DAP_PKT_TYPE_REQUEST rsv p) s) \<and>
         recv_dap_request buf len (with_rxq (dap_frame DAP_PKT_TYPE_REQUEST rsv p) s) =
           (int (length p), p @ drop (length p) buf, with_rxq [] s) \<and>
         recv_dap_request (p @ drop (length p) buf) len (with_rxq [] s) =
           (0, p @ drop (length p) buf, with_rxq [] s)"
proof (intro conjI)
  let ?s1 = "with_rxq (dap_frame DAP_PKT_TYPE_REQUEST rsv p) s"
  have s1: "?s1 = s\<lparr>socks := (socks s)(client_sockfd s \<mapsto>
                     k\<lparr>rxq := dap_frame DAP_PKT_TYPE_REQUEST rsv p\<rparr>)\<rparr>"
    and s2: "with_rxq [] s = s\<lparr>socks := (socks s)(client_sockfd s \<mapsto> k\<lparr>rxq := []\<rparr>)\<rparr>"
    by (simp_all add: with_rxq_client [OF assms(2)])
  show "recv_dap_request buf len s = (-1, buf, ?s1)"
    using recv_bad_signature [OF assms(1,2), of buf len] assms(3,4,5)
    by (simp add: length_dap_frame sizeof_header_def s1)
  show "recv_dap_request buf len ?s1 = (int (length p), p @ drop (length p) buf, with_rxq [] s)"
    using recv_frame [of ?s1 "k\<lparr>rxq := dap_frame DAP_PKT_TYPE_REQUEST rsv p\<rparr>" rsv p "[]" len buf]
      assms(1,6,7)
    by (simp add: s1 s2)
  show "recv_dap_request (p @ drop (length p) buf) len (with_rxq [] s) =
          (0, p @ drop (length p) buf, with_rxq [] s)"
    using recv_empty [of "with_rxq [] s" "k\<lparr>rxq := []\<rparr>"] by (simp add: s2)
qed

theorem bad_signature_recovery_witness:
  "recv_dap_request (replicate 1024 0) 1024
     (connected 3 ([1, 2, 3, 4, 5, 6, 7, 8] @ dap_frame DAP_PKT_TYPE_REQUEST 0 [0xAA, 0xBB])) =
     (-1, replicate 1024 0, connected 3 (dap_frame DAP_PKT_TYPE_REQUEST 0 [0xAA, 0xBB])) \<and>
   recv_dap_request (replicate 1024 0) 1024
     (connected 3 (dap_frame DAP_PKT_TYPE_REQUEST 0 [0xAA, 0xBB])) =
     (2, [0xAA, 0xBB] @ replicate 1022 0, connected 3 [])"
  using bad_signature_recovery [of "connected 3
      ([1, 2, 3, 4, 5, 6, 7, 8] @ dap_frame DAP_PKT_TYPE_REQUEST 0 [0xAA, 0xBB])" _
      "[1, 2, 3, 4, 5, 6, 7, 8]" 0 "[0xAA, 0xBB]" 1024 "replicate 1024 0"]
  by (simp add: connected_simps with_rxq_connected sizeof_header_def le_to_h_u32_def
      DAP_PKT_HDR_SIGNATURE_def)

text \<open>
  Claim C4: while the client connection holds a proper prefix of a well-formed REQUEST
  frame (fewer than the eight header bytes plus the declared payload length, also fewer
  than a header), \<open>recv_dap_request\<close> returns 0, consumes nothing and leaves the buffer
  and the state as they were.
\<close>

theorem partial_frame_no_outcome:
  assumes "socks s (client_sockfd s) = Some k"
    and "rxq k = take m (dap_frame DAP_PKT_TYPE_REQUEST rsv p)"
    and "m < sizeof_header + length p" and "length p < 65536"
  shows "recv_dap_request buf len s = (0, buf, s)"
  using assms by (simp add: recv_prefix sizeof_header_def)

theorem partial_frame_no_outcome_witness:
  "recv_dap_request (replicate 1024 0) 1024
     (connected 3 (take 9 (dap_frame DAP_PKT_TYPE_REQUEST 0 [1, 2, 3]))) =
   (0, replicate 1024 0, connected 3 (take 9 (dap_frame DAP_PKT_TYPE_REQUEST 0 [1, 2, 3])))"
  using partial_frame_no_outcome [of "connected 3 (take 9 (dap_frame DAP_PKT_TYPE_REQUEST 0 [1, 2, 3]))"
      _ 9 0 "[1, 2, 3]" "replicate 1024 0" 1024]
  by (simp add: connected_simps sizeof_header_def)

text \<open>
  Claim C7: \<open>send_dap_response\<close> returns \<open>-1\<close> and leaves the state untouched, so writes
  nothing, when the byte count exceeds 1024 (or is negative, or no client is
  connected). Otherwise it makes exactly one write call, on the header followed by the
  payload, and its result is read off that call alone: the call's negative result, 0
  when the call reports the header size plus the payload size as written, and \<open>-1\<close>
  when it reports less; there is no second call. On a connection without a pending
  error it returns 0 exactly when the send buffer has room for the whole of header and
  payload, the transport has then taken exactly these bytes, and every other result is
  negative.
\<close>

theorem send_dap_response_outcomes:
  "(1024 < len \<or> len < 0 \<or> client_sockfd s = 0 \<longrightarrow> send_dap_response buf len s = (-1, s)) \<and>
   (0 \<le> len \<and> len \<le> 1024 \<and> client_sockfd s \<noteq> 0 \<longrightarrow>
      (case sys_write (client_sockfd s)
              (hdr_bytes \<lparr> signature = DAP_PKT_HDR_SIGNATURE, pkt_length = word_of_int len,
                           packet_type = DAP_PKT_TYPE_RESPONSE, reserved = 0 \<rparr> @
               take (nat len) buf) s of
         (ret, s') \<Rightarrow>
           send_dap_response buf len s =
             (if ret < 0 then ret else if ret = len + int sizeof_header then 0 else -1, s') \<and>
           trace s' = trace s @
             [EvWrite (client_sockfd s)
                (hdr_bytes \<lparr> signature = DAP_PKT_HDR_SIGNATURE, pkt_length = word_of_int len,
                             packet_type = DAP_PKT_TYPE_RESPONSE, reserved = 0 \<rparr> @
                 take (nat len) buf) ret])) \<and>
   (0 \<le> len \<and> len \<le> 1024 \<and> nat len \<le> length buf \<and> client_sockfd s \<noteq> 0 \<and>
    socks s (client_sockfd s) = Some k \<and> so_error k = None \<longrightarrow>
      (fst (send_dap_response buf len s) = 0 \<longleftrightarrow> nat len + sizeof_header \<le> room k) \<and>
      (fst (send_dap_response buf len s) \<noteq> 0 \<longrightarrow> fst (send_dap_response buf len s) < 0) \<and>
      (fst (send_dap_response buf len s) = 0 \<longrightarrow>
         sent (snd (send_dap_response buf len s)) =
           txq k @ hdr_bytes \<lparr> signature = DAP_PKT_HDR_SIGNATURE, pkt_length = word_of_int len,
                                packet_type = DAP_PKT_TYPE_RESPONSE, reserved = 0 \<rparr> @
                   take (nat len) buf))"
proof -
  let ?data = "hdr_bytes \<lparr> signature = DAP_PKT_HDR_SIGNATURE, pkt_length = word_of_int len,
                  packet_type = DAP_PKT_TYPE_RESPONSE, reserved = 0 \<rparr> @ take (nat len) buf"
  let ?fd = "client_sockfd s"
  obtain ret s' where w: "sys_write ?fd ?data s = (ret, s')"
    by (cases "sys_write ?fd ?data s")
  have tr: "trace s' = trace s @ [EvWrite ?fd ?data ret]"
    using w by (rule sys_write_trace)
  have 1: "1024 < len \<or> len < 0 \<or> ?fd = 0 \<longrightarrow> send_dap_response buf len s = (-1, s)"
    by (auto simp add: send_dap_response_def CMSIS_DAP_PACKET_SIZE_def sizeof_header_def
        socket_write_def Let_def)
  have r: "0 \<le> len \<and> len \<le> 1024 \<and> ?fd \<noteq> 0 \<Longrightarrow>
      send_dap_response buf len s = (if ret < 0 then ret else if ret = len + 8 then 0 else -1, s')"
    using w by (simp add: send_dap_response_write)
  have 2: "0 \<le> len \<and> len \<le> 1024 \<and> ?fd \<noteq> 0 \<longrightarrow>
      (case sys_write ?fd ?data s of
         (ret, s') \<Rightarrow>
           send_dap_response buf len s =
             (if ret < 0 then ret else if ret = len + int sizeof_header then 0 else -1, s') \<and>
           trace s' = trace s @ [EvWrite ?fd ?data ret])"
    using r tr by (simp add: w sizeof_header_def)
  have 3: "0 \<le> len \<and> len \<le> 1024 \<and> nat len \<le> length buf \<and> ?fd \<noteq> 0 \<and>
    socks s ?fd = Some k \<and> so_error k = None \<longrightarrow>
      (fst (send_dap_response buf len s) = 0 \<longleftrightarrow> nat len + sizeof_header \<le> room k) \<and>
      (fst (send_dap_response buf len s) \<noteq> 0 \<longrightarrow> fst (send_dap_response buf len s) < 0) \<and>
      (fst (send_dap_response buf len s) = 0 \<longrightarrow>
         sent (snd (send_dap_response buf len s)) = txq k @ ?data)"
  proof
    assume a: "0 \<le> len \<and> len \<le> 1024 \<and> nat len \<le> length buf \<and> ?fd \<noteq> 0 \<and>
      socks s ?fd = Some k \<and> so_error k = None"
    then have l: "length ?data = nat len + 8"
      by (simp add: length_hdr_bytes)
    then have ne: "?data \<noteq> []"
      by (metis add_is_0 length_0_conv zero_neq_numeral)
    have rv: "ret = (if room k = 0 then -1 else int (min (nat len + 8) (room k)))"
      using sys_write_ret [of s ?fd k ?data] a ne w unfolding l by simp
    have res: "send_dap_response buf len s =
        (if ret < 0 then ret else if ret = len + 8 then 0 else -1, s')"
      using a r by simp
    have iff: "fst (send_dap_response buf len s) = 0 \<longleftrightarrow> nat len + sizeof_header \<le> room k"
      using a unfolding res rv sizeof_header_def by (auto simp add: min_def)
    have neg: "fst (send_dap_response buf len s) \<noteq> 0 \<longrightarrow> fst (send_dap_response buf len s) < 0"
      unfolding res by auto
    have snt: "fst (send_dap_response buf len s) = 0 \<longrightarrow>
         sent (snd (send_dap_response buf len s)) = txq k @ ?data"
    proof
      assume "fst (send_dap_response buf len s) = 0"
      with iff have "nat len + 8 \<le> room k"
        by (simp add: sizeof_header_def)
      then have "length ?data \<le> room k"
        by (simp only: l)
      define S where "S = s\<lparr>socks := (socks s)(?fd \<mapsto>
                k\<lparr>txq := txq k @ ?data, room := room k - length ?data\<rparr>),
            trace := trace s @ [EvWrite ?fd ?data (int (length ?data))]\<rparr>"
      have "sys_write ?fd ?data s = (int (length ?data), S)"
        unfolding S_def using a \<open>length ?data \<le> room k\<close> by (intro sys_write_full) simp_all
      with w have "s' = S"
        by simp
      moreover have "sent S = txq k @ ?data"
        by (simp add: S_def sent_def)
      ultimately show "sent (snd (send_dap_response buf len s)) = txq k @ ?data"
        unfolding res by simp
    qed
    from iff neg snt show "(fst (send_dap_response buf len s) = 0 \<longleftrightarrow> nat len + sizeof_header \<le> room k) \<and>
      (fst (send_dap_response buf len s) \<noteq> 0 \<longrightarrow> fst (send_dap_response buf len s) < 0) \<and>
      (fst (send_dap_response buf len s) = 0 \<longrightarrow>
         sent (snd (send_dap_response buf len s)) = txq k @ ?data)"
      by blast
  qed
  from 1 2 3 show ?thesis by blast
qed

theorem send_dap_response_outcomes_witness:
  "send_dap_response (replicate 1024 0) 2000 (connected 3 []) = (-1, connected 3 []) \<and>
   fst (send_dap_response [0xAA] 1 (connected 3 [])) = 0 \<and>
   sent (snd (send_dap_response [0xAA] 1 (connected 3 []))) =
     [0x44, 0x41, 0x50, 0x00, 0x01, 0x00, 0x02, 0x00, 0xAA] \<and>
   fst (send_dap_response [0xAA] 1 (short_of_room 3 5)) < 0"
proof -
  let ?k = "\<lparr> rxq = [], fin = False, so_error = None, room = 4096, txq = [] \<rparr>"
  let ?k5 = "\<lparr> rxq = [], fin = False, so_error = None, room = 5, txq = [] \<rparr>"
  note big = send_dap_response_outcomes [where len = 2000 and buf = "replicate 1024 0"
      and s = "connected 3 []" and k = ?k]
  note ok = send_dap_response_outcomes [where len = 1 and buf = "[0xAA]"
      and s = "connected 3 []" and k = ?k]
  note short = send_dap_response_outcomes [where len = 1 and buf = "[0xAA]"
      and s = "short_of_room 3 5" and k = ?k5]
  have 1: "send_dap_response (replicate 1024 0) 2000 (connected 3 []) = (-1, connected 3 [])"
    using big by simp
  have h: "(0::int) \<le> 1 \<and> (1::int) \<le> 1024 \<and> nat 1 \<le> length [0xAA :: u8] \<and>
      client_sockfd (connected 3 []) \<noteq> 0 \<and>
      socks (connected 3 []) (client_sockfd (connected 3 [])) = Some ?k \<and> so_error ?k = None"
    by (simp add: connected_simps)
  have 2: "fst (send_dap_response [0xAA] 1 (connected 3 [])) = 0"
    using ok h by (simp add: sizeof_header_def)
  with ok h have "sent (snd (send_dap_response [0xAA] 1 (connected 3 []))) =
      txq ?k @ hdr_bytes \<lparr> signature = DAP_PKT_HDR_SIGNATURE, pkt_length = word_of_int 1,
                                packet_type = DAP_PKT_TYPE_RESPONSE, reserved = 0 \<rparr> @
                   take (nat 1) [0xAA]"
    by blast
  then have 3: "sent (snd (send_dap_response [0xAA] 1 (connected 3 []))) =
     [0x44, 0x41, 0x50, 0x00, 0x01, 0x00, 0x02, 0x00, 0xAA]"
    by (simp add: hdr_bytes_def signature_bytes h_u16_to_le_def DAP_PKT_TYPE_RESPONSE_def)
  have h5: "(0::int) \<le> 1 \<and> (1::int) \<le> 1024 \<and> nat 1 \<le> length [0xAA :: u8] \<and>
      client_sockfd (short_of_room 3 5) \<noteq> 0 \<and>
      socks (short_of_room 3 5) (client_sockfd (short_of_room 3 5)) = Some ?k5 \<and>
      so_error ?k5 = None"
    by (simp add: short_of_room_def connected_def)
  have "fst (send_dap_response [0xAA] 1 (short_of_room 3 5)) \<noteq> 0"
    using short h5 by (simp add: sizeof_header_def)
  with short h5 have 4: "fst (send_dap_response [0xAA] 1 (short_of_room 3 5)) < 0"
    by blast
  from 1 2 3 4 show ?thesis by blast
qed

text \<open>
  Claim C8: for a payload of \<open>n \<le> 1024\<close> bytes and a connected client, \<open>send_dap_response\<close>
  hands the transport, in one write call, exactly the signature 0x00504144 in little
  endian (44 41 50 00), \<open>n\<close> as two bytes in little endian, the type byte 0x02, a
  reserved byte 0, and the \<open>n\<close> payload bytes.
\<close>

theorem send_dap_response_wire_format:
  assumes "n \<le> CMSIS_DAP_PACKET_SIZE" and "n \<le> length buf" and "client_sockfd s \<noteq> 0"
  shows "\<exists>ret. trace (snd (send_dap_response buf (int n) s)) =
           trace s @ [EvWrite (client_sockfd s)
             ([0x44, 0x41, 0x50, 0x00] @ [of_nat (n mod 256), of_nat (n div 256)] @
              [0x02, 0x00] @ take n buf) ret]"
proof -
  let ?data = "hdr_bytes \<lparr> signature = DAP_PKT_HDR_SIGNATURE, pkt_length = word_of_int (int n),
                  packet_type = DAP_PKT_TYPE_RESPONSE, reserved = 0 \<rparr> @ take (nat (int n)) buf"
  obtain ret s' where w: "sys_write (client_sockfd s) ?data s = (ret, s')"
    by (cases "sys_write (client_sockfd s) ?data s")
  have n: "n < 65536" "int n \<le> 1024"
    using assms(1) by (simp_all add: CMSIS_DAP_PACKET_SIZE_def)
  have d: "?data = [0x44, 0x41, 0x50, 0x00] @ [of_nat (n mod 256), of_nat (n div 256)] @
              [0x02, 0x00] @ take n buf"
    by (simp add: hdr_bytes_def signature_bytes le16_bytes [OF n(1)] DAP_PKT_TYPE_RESPONSE_def)
  have "send_dap_response buf (int n) s =
           (if ret < 0 then ret else if ret = int n + 8 then 0 else -1, s')"
    using send_dap_response_write [OF _ n(2) assms(3) w] by simp
  moreover have "trace s' = trace s @ [EvWrite (client_sockfd s) ?data ret]"
    using w by (rule sys_write_trace)
  ultimately show ?thesis
    unfolding d by (intro exI [of _ ret]) simp
qed

theorem send_dap_response_wire_format_witness:
  "\<exists>ret. trace (snd (send_dap_response [0xAA, 0xBB, 0xCC] 3 (connected 3 []))) =
     [EvWrite 3 [0x44, 0x41, 0x50, 0x00, 0x03, 0x00, 0x02, 0x00, 0xAA, 0xBB, 0xCC] ret]"
  using send_dap_response_wire_format [of 3 "[0xAA, 0xBB, 0xCC]" "connected 3 []"]
  by (simp add: CMSIS_DAP_PACKET_SIZE_def connected_def)

text \<open>
  Claim C10: \<open>recv_dap_request buf len\<close> stores into \<open>buf\<close> only behind the check of
  the declared length against \<open>len\<close>: when it returns \<open>n > 0\<close>, then \<open>n \<le> len\<close>, \<open>n\<close>
  is the length the header declares, the first \<open>n\<close> bytes of \<open>buf\<close> are the \<open>n\<close>
  payload bytes that followed the header, and the rest of \<open>buf\<close> is as before; when it
  returns zero or less, \<open>buf\<close> is unchanged.
\<close>

theorem recv_dap_request_buffer_bound:
  "case recv_dap_request buf len s of (n, buf', s') \<Rightarrow>
     (n \<le> 0 \<longrightarrow> buf' = buf) \<and>
     (0 < n \<longrightarrow> n \<le> len \<and>
        (\<exists>k. socks s (client_sockfd s) = Some k \<and>
             n = uint (pkt_length (hdr_of_bytes (take 8 (rxq k)))) \<and>
             8 + nat n \<le> length (rxq k) \<and>
             buf' = take (nat n) (drop 8 (rxq k)) @ drop (nat n) buf))"
proof (cases "client_sockfd s = 0 \<or> socks s (client_sockfd s) = None")
  case True
  then show ?thesis by (simp add: recv_dap_request_no_client)
next
  case False
  then obtain k where c: "client_sockfd s \<noteq> 0" and k: "socks s (client_sockfd s) = Some k"
    by auto
  show ?thesis
    unfolding recv_dap_request_stream [OF c k] stream_step_def Let_def
    using k by (auto simp add: uint_0_iff)
qed

theorem recv_dap_request_buffer_bound_witness:
  "case recv_dap_request (replicate 1024 0) 1024
          (connected 3 (dap_frame DAP_PKT_TYPE_REQUEST 0 [1, 2, 3])) of
     (n, buf', s') \<Rightarrow> n = 3 \<and> n \<le> 1024 \<and> buf' = [1, 2, 3] @ replicate 1021 0"
  using recv_dap_request_buffer_bound [of "replicate 1024 0" 1024
      "connected 3 (dap_frame DAP_PKT_TYPE_REQUEST 0 [1, 2, 3])"]
    recv_frame [of "connected 3 (dap_frame DAP_PKT_TYPE_REQUEST 0 [1, 2, 3])" _ 0 "[1, 2, 3]" "[]"
      1024 "replicate 1024 0"]
  by (simp add: connected_simps)

section \<open>Claims about the pump and the connection manager\<close>

text \<open>
  Claim C5, as stated: with \<open>n\<close> complete request frames buffered, one call of the pump
  extracts and answers all of them in order. It does not when a frame has an empty
  payload: \<open>recv_dap_request\<close> returns its length, 0, which the pump takes for "no
  complete packet". Of an empty frame followed by a frame with the payload \<open>[0xAA]\<close>, one
  call consumes the first, invokes no command, writes nothing, and returns 0 with the
  second frame still buffered.
\<close>

theorem pipelined_requests_counterexample:
  "process_dap_requests dap_ack 0
     (connected 3 ([0x44, 0x41, 0x50, 0x00, 0x00, 0x00, 0x01, 0x00] @
                   [0x44, 0x41, 0x50, 0x00, 0x01, 0x00, 0x01, 0x00, 0xAA])) =
   (0, 0, connected 3 [0x44, 0x41, 0x50, 0x00, 0x01, 0x00, 0x01, 0x00, 0xAA])"
  using pump_empty_payload [of "connected 3 ([0x44, 0x41, 0x50, 0x00, 0x00, 0x00, 0x01, 0x00] @
                   [0x44, 0x41, 0x50, 0x00, 0x01, 0x00, 0x01, 0x00, 0xAA])" _ 0
      "[0x44, 0x41, 0x50, 0x00, 0x01, 0x00, 0x01, 0x00, 0xAA]" dap_ack 0]
  by (simp add: connected_simps with_rxq_connected dap_frame_bytes DAP_PKT_TYPE_REQUEST_def)

text \<open>
  Claim C5, amended: when complete request frames, each with a payload of 1 to 1024
  bytes, are buffered on the client connection before one call of
  \<open>process_dap_requests\<close>, the command processor keeps to its contract and the
  transport takes every response in full, then that call returns 0 with nothing left
  buffered, and what it did is, for each frame in the order of arrival, one invocation
  of the command processor on that request followed by one write of the RESPONSE frame
  with its answer, before the next request is processed.
\<close>

theorem pipelined_requests:
  assumes "client_sockfd s \<noteq> 0" and "socks s (client_sockfd s) = Some k"
    and "rxq k = request_stream fs"
    and "\<forall>(rsv, p) \<in> set fs. p \<noteq> [] \<and> length p \<le> CMSIS_DAP_PACKET_SIZE"
    and "so_error k = None" and "1032 * length fs \<le> room k"
    and "dap_ok dap"
  shows "case process_dap_requests dap d s of (r, d', s') \<Rightarrow>
           r = 0 \<and>
           trace s' = trace s @ pipelined_exchange dap d (client_sockfd s) (request s) (response s)
                                  (map snd fs) \<and>
           pending s' = 0"
  using assms by (rule pump_drains)

theorem pipelined_requests_witness:
  "case process_dap_requests dap_ack 0
          (connected 3 (request_stream [(0, [0xAA]), (0, [0xBB, 0xCC])])) of
     (r, d', s') \<Rightarrow>
       r = 0 \<and>
       trace s' =
         [EvCommand (0xAA # replicate 1023 0),
          EvWrite 3 [0x44, 0x41, 0x50, 0x00, 0x01, 0x00, 0x02, 0x00, 0xAA] 9,
          EvCommand (0xBB # 0xCC # replicate 1022 0),
          EvWrite 3 [0x44, 0x41, 0x50, 0x00, 0x01, 0x00, 0x02, 0x00, 0xBB] 9] \<and>
       pending s' = 0"
proof -
  have a: "(0x00010001 :: u32) AND 0xFFFF = 1"
    by simp
  have "pipelined_exchange dap_ack 0 3 (replicate 1024 0) (replicate 1024 0)
          [[0xAA], [0xBB, 0xCC]] =
        [EvCommand (0xAA # replicate 1023 0),
          EvWrite 3 [0x44, 0x41, 0x50, 0x00, 0x01, 0x00, 0x02, 0x00, 0xAA] 9,
          EvCommand (0xBB # 0xCC # replicate 1022 0),
          EvWrite 3 [0x44, 0x41, 0x50, 0x00, 0x01, 0x00, 0x02, 0x00, 0xBB] 9]"
    by (simp add: dap_ack_def a dap_frame_bytes DAP_PKT_TYPE_RESPONSE_def sizeof_header_def)
  then show ?thesis
    using pipelined_requests [of "connected 3 (request_stream [(0, [0xAA]), (0, [0xBB, 0xCC])])"
        _ "[(0, [0xAA]), (0, [0xBB, 0xCC])]" dap_ack 0] dap_ok_dap_ack
    by (simp add: connected_def CMSIS_DAP_PACKET_SIZE_def)
qed

text \<open>
  Claim C6, as stated: in every state with an active client, accepting a second pending
  connection closes the new socket, leaves the client untouched, and the tick returns
  success. The tick does not always return success: its result is that of the pump on
  the client connection. With eight stray bytes buffered on the active client and a
  second connection pending, the new socket is closed and the tick returns \<open>-1\<close>.
\<close>

theorem single_client_exclusive_counterexample:
  "client_sockfd stray_pending = 3 \<and>
   cmsis_dap_tcp_process dap_ack 0 stray_pending =
     (-1, 0, (connected 3 [])\<lparr>trace := [EvClose 4]\<rparr>)"
proof -
  let ?s1 = "(connected 3 [1, 2, 3, 4, 5, 6, 7, 8])\<lparr>trace := [EvClose 4]\<rparr>"
  have h: "handle_server stray_pending = (0, ?s1)"
    by (simp add: handle_server_def sys_accept_def sys_close_def stray_pending_def connected_def)
  have "sys_recv (client_sockfd ?s1) 1 True ?s1 = (1, [1], ?s1)"
    by (simp add: sys_recv_def connected_def)
  then have "socket_disconnected ?s1 = (0, ?s1)"
    using probe_first(4) [of ?s1 1 "[1]" ?s1] by simp
  then have c: "handle_client ?s1 = (0, ?s1)"
    by (simp add: handle_client_def connected_def)
  have "le_to_h_u32 (take 4 [1, 2, 3, 4, 5, 6, 7, 8 :: u8]) \<noteq> DAP_PKT_HDR_SIGNATURE"
    by (simp add: le_to_h_u32_def DAP_PKT_HDR_SIGNATURE_def)
  then have "recv_dap_request (request ?s1) (int CMSIS_DAP_PACKET_SIZE) ?s1 =
      (-1, request ?s1, (connected 3 [])\<lparr>trace := [EvClose 4]\<rparr>)"
    using recv_bad_signature [of ?s1 _ "request ?s1" "int CMSIS_DAP_PACKET_SIZE"]
    by (simp add: connected_def)
  then have "process_dap_requests dap_ack 0 ?s1 =
      (-1, 0, (connected 3 [])\<lparr>trace := [EvClose 4], request := request ?s1\<rparr>)"
    by (simp add: process_dap_requests.simps [of dap_ack 0 ?s1])
  moreover have "(connected 3 [])\<lparr>trace := [EvClose 4], request := request ?s1\<rparr> =
      (connected 3 [])\<lparr>trace := [EvClose 4]\<rparr>"
    by (simp add: connected_def)
  ultimately have "process_dap_requests dap_ack 0 ?s1 =
      (-1, 0, (connected 3 [])\<lparr>trace := [EvClose 4]\<rparr>)"
    by simp
  then show ?thesis
    using h c by (simp add: cmsis_dap_tcp_process_def connected_def stray_pending_def)
qed

text \<open>
  Claim C6, amended: while a client is connected, \<open>handle_server\<close> answers a pending
  connection (with a descriptor that is not in use) by closing the new socket at once
  and returning 0, and changes nothing else: the client's descriptor, its socket and
  the arrays stay as they were. The tick goes on from that state with the client check
  and the pump and returns their result, which is 0 when less than a header is buffered
  on the client connection. A tick that starts with at most one connection, the one
  \<open>client_sockfd\<close> names, ends so.
\<close>

theorem single_client_exclusive:
  "(client_sockfd s \<noteq> 0 \<and> backlog s = Inr (fd, k) # rest \<and> 0 \<le> fd \<and> fd \<notin> dom (socks s) \<longrightarrow>
      handle_server s = (0, s\<lparr>backlog := rest, trace := trace s @ [EvClose fd]\<rparr>)) \<and>
   (client_sockfd s \<noteq> 0 \<and> backlog s = Inr (fd, k) # rest \<and> 0 \<le> fd \<and> fd \<notin> dom (socks s) \<longrightarrow>
      cmsis_dap_tcp_process dap d s =
        (let (r2, s2) = handle_client (s\<lparr>backlog := rest, trace := trace s @ [EvClose fd]\<rparr>)
         in if client_sockfd s2 \<noteq> 0 then process_dap_requests dap d s2 else (0, d, s2))) \<and>
   (client_sockfd s \<noteq> 0 \<and> backlog s = Inr (fd, k) # rest \<and> 0 \<le> fd \<and> fd \<notin> dom (socks s) \<and>
      pending s < sizeof_header \<longrightarrow>
      fst (cmsis_dap_tcp_process dap d s) = 0) \<and>
   (one_client s \<and> fresh_accept s \<longrightarrow>
      one_client (snd (snd (cmsis_dap_tcp_process dap d s))) \<and>
      card (connections (snd (snd (cmsis_dap_tcp_process dap d s)))) \<le> 1)"
proof (intro conjI impI)
  assume a: "client_sockfd s \<noteq> 0 \<and> backlog s = Inr (fd, k) # rest \<and> 0 \<le> fd \<and>
      fd \<notin> dom (socks s) \<and> pending s < sizeof_header"
  then have "handle_server s = (0, s\<lparr>backlog := rest, trace := trace s @ [EvClose fd]\<rparr>)"
    by (simp add: handle_server_reject)
  moreover have "pending (s\<lparr>backlog := rest, trace := trace s @ [EvClose fd]\<rparr>) < 8"
    using a by (simp add: pending_def sizeof_header_def)
  ultimately show "fst (cmsis_dap_tcp_process dap d s) = 0"
    by (rule tick_short)
next
  assume "client_sockfd s \<noteq> 0 \<and> backlog s = Inr (fd, k) # rest \<and> 0 \<le> fd \<and> fd \<notin> dom (socks s)"
  then show "handle_server s = (0, s\<lparr>backlog := rest, trace := trace s @ [EvClose fd]\<rparr>)"
    by (simp add: handle_server_reject)
next
  assume "client_sockfd s \<noteq> 0 \<and> backlog s = Inr (fd, k) # rest \<and> 0 \<le> fd \<and> fd \<notin> dom (socks s)"
  then have "handle_server s = (0, s\<lparr>backlog := rest, trace := trace s @ [EvClose fd]\<rparr>)"
    by (simp add: handle_server_reject)
  then show "cmsis_dap_tcp_process dap d s =
        (let (r2, s2) = handle_client (s\<lparr>backlog := rest, trace := trace s @ [EvClose fd]\<rparr>)
         in if client_sockfd s2 \<noteq> 0 then process_dap_requests dap d s2 else (0, d, s2))"
    by (simp add: cmsis_dap_tcp_process_def)
next
  assume a: "one_client s \<and> fresh_accept s"
  let ?s1 = "snd (handle_server s)"
  let ?s2 = "snd (handle_client ?s1)"
  have 2: "one_client ?s2"
    using a by (simp add: handle_server_one_client handle_client_one_client)
  have "one_client (snd (snd (process_dap_requests dap d ?s2)))"
    using process_dap_requests_same [of ?s2 dap d] 2 by (rule same_sockets_one_client)
  then show 3: "one_client (snd (snd (cmsis_dap_tcp_process dap d s)))"
    using 2 by (simp add: cmsis_dap_tcp_process_def split_beta)
  have "connections (snd (snd (cmsis_dap_tcp_process dap d s))) \<subseteq>
          {client_sockfd (snd (snd (cmsis_dap_tcp_process dap d s)))}"
    using 3 by (simp add: one_client_def)
  then have "card (connections (snd (snd (cmsis_dap_tcp_process dap d s)))) \<le>
          card {client_sockfd (snd (snd (cmsis_dap_tcp_process dap d s)))}"
    by (intro card_mono) simp_all
  then show "card (connections (snd (snd (cmsis_dap_tcp_process dap d s)))) \<le> 1"
    by simp
qed

theorem single_client_exclusive_witness:
  "handle_server second_pending = (0, (connected 3 [])\<lparr>trace := [EvClose 4]\<rparr>) \<and>
   fst (cmsis_dap_tcp_process dap_ack 0 second_pending) = 0 \<and>
   one_client (snd (snd (cmsis_dap_tcp_process dap_ack 0 second_pending)))"
proof -
  let ?k = "\<lparr> rxq = [], fin = False, so_error = None, room = 4096, txq = [] \<rparr>"
  note t = single_client_exclusive [of second_pending 4 ?k "[]" dap_ack 0]
  have "client_sockfd second_pending \<noteq> 0 \<and> backlog second_pending = Inr (4, ?k) # [] \<and>
        (0::int) \<le> 4 \<and> 4 \<notin> dom (socks second_pending)"
    by (simp add: second_pending_def connected_def)
  with t have "handle_server second_pending =
      (0, second_pending\<lparr>backlog := [], trace := trace second_pending @ [EvClose 4]\<rparr>)"
    by blast
  then have h: "handle_server second_pending = (0, (connected 3 [])\<lparr>trace := [EvClose 4]\<rparr>)"
    by (simp add: second_pending_def connected_def)
  have "one_client second_pending \<and> fresh_accept second_pending"
    by (simp add: one_client_def connections_def fresh_accept_def second_pending_def
        connected_def)
  with t have o: "one_client (snd (snd (cmsis_dap_tcp_process dap_ack 0 second_pending)))"
    by blast
  have "client_sockfd second_pending \<noteq> 0 \<and> backlog second_pending = Inr (4, ?k) # [] \<and>
        (0::int) \<le> 4 \<and> 4 \<notin> dom (socks second_pending) \<and>
        pending second_pending < sizeof_header"
    by (simp add: second_pending_def connected_def pending_def sizeof_header_def)
  with t have "fst (cmsis_dap_tcp_process dap_ack 0 second_pending) = 0"
    by blast
  with h o show ?thesis by simp
qed

text \<open>
  Claim C9: with the outcome of the first one-byte peek of \<open>socket_disconnected\<close> at
  hand: a peek of zero bytes makes the probe return 1; a peek that fails with EAGAIN,
  ETIMEDOUT or ENOTCONN makes it return 0; a peek that fails with any errno but these
  and EINTR makes it return \<open>-errno\<close>. On the zero-byte peek and on such an error
  \<open>handle_client\<close> closes the client socket and clears \<open>client_sockfd\<close>; on the
  transient failures it leaves the connection. When the peer has closed its write side,
  nothing is buffered and no error is pending, the next probe returns 1, however many
  signals interrupt it, and \<open>handle_client\<close> closes the connection.
\<close>

theorem disconnect_probe:
  assumes "sys_recv (client_sockfd s) 1 True s = (r, x, s')"
  shows "(r = 0 \<longrightarrow> socket_disconnected s = (1, s')) \<and>
         (r < 0 \<and> errno s' \<in> {EAGAIN, ETIMEDOUT, ENOTCONN} \<longrightarrow> socket_disconnected s = (0, s')) \<and>
         (r < 0 \<and> errno s' \<notin> {EINTR, EAGAIN, ETIMEDOUT, ENOTCONN} \<longrightarrow>
            socket_disconnected s = (- errno s', s')) \<and>
         (client_sockfd s \<noteq> 0 \<and>
            (r = 0 \<or> r < 0 \<and> errno s' \<notin> {EINTR, EAGAIN, ETIMEDOUT, ENOTCONN, 0}) \<longrightarrow>
            handle_client s = (0, (sys_close (client_sockfd s) s')\<lparr>client_sockfd := 0\<rparr>)) \<and>
         (client_sockfd s \<noteq> 0 \<and> r < 0 \<and> errno s' \<in> {EAGAIN, ETIMEDOUT, ENOTCONN} \<longrightarrow>
            handle_client s = (0, s')) \<and>
         (\<forall>k. client_sockfd s \<noteq> 0 \<and> socks s (client_sockfd s) = Some k \<and> rxq k = [] \<and> fin k \<and>
              so_error k = None \<longrightarrow>
            fst (socket_disconnected s) = 1 \<and>
            client_sockfd (snd (handle_client s)) = 0 \<and>
            socks (snd (handle_client s)) (client_sockfd s) = None \<and>
            trace (snd (handle_client s)) = trace s @ [EvClose (client_sockfd s)])"
proof -
  have c: "client_sockfd s' = client_sockfd s"
    using sys_recv_keeps [OF assms] by simp
  note p = probe_first [OF assms]
  have "r = 0 \<longrightarrow> socket_disconnected s = (1, s')"
    using p(1) by simp
  moreover have "r < 0 \<and> errno s' \<in> {EAGAIN, ETIMEDOUT, ENOTCONN} \<longrightarrow>
      socket_disconnected s = (0, s')"
    using p(2) by simp
  moreover have "r < 0 \<and> errno s' \<notin> {EINTR, EAGAIN, ETIMEDOUT, ENOTCONN} \<longrightarrow>
            socket_disconnected s = (- errno s', s')"
    using p(3) by simp
  moreover have "client_sockfd s \<noteq> 0 \<and>
            (r = 0 \<or> r < 0 \<and> errno s' \<notin> {EINTR, EAGAIN, ETIMEDOUT, ENOTCONN, 0}) \<longrightarrow>
            handle_client s = (0, (sys_close (client_sockfd s) s')\<lparr>client_sockfd := 0\<rparr>)"
    using p(1) p(3) c by (auto simp add: handle_client_def)
  moreover have "client_sockfd s \<noteq> 0 \<and> r < 0 \<and> errno s' \<in> {EAGAIN, ETIMEDOUT, ENOTCONN} \<longrightarrow>
            handle_client s = (0, s')"
    using p(2) by (simp add: handle_client_def)
  moreover have "\<forall>k. client_sockfd s \<noteq> 0 \<and> socks s (client_sockfd s) = Some k \<and> rxq k = [] \<and> fin k \<and>
              so_error k = None \<longrightarrow>
            fst (socket_disconnected s) = 1 \<and>
            client_sockfd (snd (handle_client s)) = 0 \<and>
            socks (snd (handle_client s)) (client_sockfd s) = None \<and>
            trace (snd (handle_client s)) = trace s @ [EvClose (client_sockfd s)]"
  proof (intro allI impI)
    fix k
    assume a: "client_sockfd s \<noteq> 0 \<and> socks s (client_sockfd s) = Some k \<and> rxq k = [] \<and> fin k \<and>
              so_error k = None"
    then have f: "fst (socket_disconnected s) = 1 \<and>
       client_sockfd (snd (socket_disconnected s)) = client_sockfd s \<and>
       socks (snd (socket_disconnected s)) = socks s \<and>
       trace (snd (socket_disconnected s)) = trace s"
      using probe_after_fin [of s k "signals s"] by simp
    then show "fst (socket_disconnected s) = 1 \<and>
            client_sockfd (snd (handle_client s)) = 0 \<and>
            socks (snd (handle_client s)) (client_sockfd s) = None \<and>
            trace (snd (handle_client s)) = trace s @ [EvClose (client_sockfd s)]"
      using a by (simp add: handle_client_def sys_close_def split_beta)
  qed
  ultimately show ?thesis by blast
qed

theorem disconnect_probe_witness:
  "socket_disconnected (peer_closed 3) = (1, peer_closed 3) \<and>
   handle_client (peer_closed 3) =
     (0, (sys_close 3 (peer_closed 3))\<lparr>client_sockfd := 0\<rparr>) \<and>
   socket_disconnected (connected 3 []) = (0, (connected 3 [])\<lparr>errno := EAGAIN\<rparr>)"
  using disconnect_probe [of "peer_closed 3" 0 "[]" "peer_closed 3"]
    disconnect_probe [of "connected 3 []" "-1" "[]" "(connected 3 [])\<lparr>errno := EAGAIN\<rparr>"]
  by (simp add: sys_recv_def peer_closed_def connected_def)

end
